theory Spec2Isabelle
  imports Main
begin

section \<open>The wait command of jx-pipeline: data model\<close>

text \<open>
  The command \<open>jx pipeline wait\<close> polls two external objects: the Lighthouse
  configuration (until it holds a trigger for the repository) and the
  SourceRepository resource (until its webhook annotation reads \<open>true\<close>).
  The embedding follows \<open>pkg/cmd/wait\<close>: \<open>Validate\<close>, \<open>Run\<close>,
  \<open>waitForRepositoryToBeSetup\<close>, \<open>waitForWebHookToBeSetup\<close> and
  \<open>containsRepositoryTrigger\<close>.
\<close>

subsection \<open>Go values\<close>

text \<open>
  A Go slice is \<open>nil\<close> or holds elements, and an empty slice is not \<open>nil\<close>;
  a Go map is \<open>nil\<close> or a finite table. Indexing a map at a key it lacks (or
  indexing a \<open>nil\<close> map) yields the zero value of the element type, which
  \<open>map_index\<close> takes as its second argument.
\<close>

type_synonym 'a slice = "'a list option"

type_synonym ('k, 'v) gomap = "('k \<rightharpoonup> 'v) option"

definition map_index :: "('k, 'v) gomap \<Rightarrow> 'v \<Rightarrow> 'k \<Rightarrow> 'v" where
  "map_index m zero k =
     (case m of
        None \<Rightarrow> zero
      | Some tbl \<Rightarrow> (case tbl k of None \<Rightarrow> zero | Some v \<Rightarrow> v))"

text \<open>Key membership (Go's \<open>_, ok := m[k]\<close>), used to state properties only.\<close>

definition has_entry :: "('k, 'v) gomap \<Rightarrow> 'k \<Rightarrow> bool" where
  "has_entry m k = (case m of None \<Rightarrow> False | Some tbl \<Rightarrow> tbl k \<noteq> None)"

text \<open>An entry whose stored value is \<open>nil\<close> (a \<open>nil\<close> slice, a \<open>nil\<close> pointer).\<close>

definition nil_entry :: "('k, 'v option) gomap \<Rightarrow> 'k \<Rightarrow> bool" where
  "nil_entry m k = (case m of None \<Rightarrow> False | Some tbl \<Rightarrow> tbl k = Some None)"

subsection \<open>Errors\<close>

text \<open>
  \<open>ExternalError\<close> is an error handed back by a collaborator (the Kubernetes
  client, the configuration loader); its flag is what \<open>apierrors.IsNotFound\<close>
  answers for it. \<open>Errorf\<close> and \<open>Wrapf\<close> keep the format string and the
  arguments of \<open>errors.Errorf\<close> and \<open>errors.Wrapf\<close> apart, so that no
  formatting has to be modelled.
\<close>

datatype error =
    ExternalError bool string
  | MissingOption string
  | Errorf string "string list"
  | Wrapf error string "string list"

fun IsNotFound :: "error \<Rightarrow> bool" where
  "IsNotFound (ExternalError nf msg) = nf"
| "IsNotFound (MissingOption n) = False"
| "IsNotFound (Errorf f args) = False"
| "IsNotFound (Wrapf e f args) = False"

subsection \<open>Options and the helpers of other packages\<close>

text \<open>
  Durations and clock readings are nanosecond counts, as integers without a
  bound: \<open>time.Time.Add\<close> does not wrap, and \<open>After\<close> is the strict order
  of the readings.
\<close>

record Options =
  WaitDuration :: int
  PollPeriod :: int
  Owner :: string
  Repository :: string
  LighthouseConfigMap :: string
  Namespace :: string

text \<open>
  Functions of imported packages that the command calls on strings:
  \<open>naming.ToValidName\<close>, \<open>scm.Join\<close>, \<open>time.Duration.String\<close> and
  \<open>termcolor.ColorInfo\<close>. They are parameters of the model.
\<close>

record externals =
  ToValidName :: "string \<Rightarrow> string"
  Join :: "string \<Rightarrow> string \<Rightarrow> string"
  DurationString :: "int \<Rightarrow> string"
  info :: "string \<Rightarrow> string"

subsection \<open>Observable actions\<close>

text \<open>
  A run is described by its result and by the sequence of calls it makes to
  the outside: the two fetches, the clock reading of the deadline comparison,
  the log lines and the sleeps.
\<close>

datatype event =
    LoadLighthouseConfig
  | GetSourceRepository
  | TimeNow
  | Infof string "string list"
  | Warnf string "string list"
  | Sleep int

subsection \<open>The Lighthouse configuration\<close>

text \<open>
  Of \<open>config.Config\<close> the command reads \<open>Postsubmits\<close>
  (\<open>map[string][]Postsubmit\<close>) and \<open>InRepoConfig.Enabled\<close>
  (\<open>map[string]*bool\<close>); \<open>Presubmits\<close> (\<open>map[string][]Presubmit\<close>) is the
  sibling map it does not read. A \<open>nil\<close> pointer to a bool is \<open>None\<close>.
\<close>

record ('pre, 'post) config =
  Presubmits :: "(string, 'pre slice) gomap"
  Postsubmits :: "(string, 'post slice) gomap"
  InRepoConfigEnabled :: "(string, bool option) gomap"

definition containsRepositoryTrigger :: "('pre, 'post) config \<Rightarrow> string \<Rightarrow> bool" where
  "containsRepositoryTrigger cfg fullName =
     (if map_index (Postsubmits cfg) None fullName \<noteq> None then True
      else
        (case (if InRepoConfigEnabled cfg \<noteq> None
               then map_index (InRepoConfigEnabled cfg) None fullName
               else None) of
           Some f \<Rightarrow> f
         | None \<Rightarrow> False))"

section \<open>The trigger phase\<close>

text \<open>
  One observation per loop iteration: what \<open>triggers.LoadLighthouseConfig\<close>
  returns, and what \<open>time.Now()\<close> reads at the deadline comparison of that
  iteration (unused when the iteration returns before comparing). The loop has
  no bound of its own; a run that has used up its observations without
  returning is still polling, and its result is \<open>None\<close>.
\<close>

datatype 'c load_result = Loaded 'c | LoadFailed error

definition trigger_timeout :: "externals \<Rightarrow> Options \<Rightarrow> string \<Rightarrow> string \<Rightarrow> error" where
  "trigger_timeout x opts ns fullName =
     Errorf ''failed to find trigger in the lighthouse configuration in ConfigMap %s in namespace %s for repository: %s within %s''
       [LighthouseConfigMap opts, ns, fullName, DurationString x (WaitDuration opts)]"

definition trigger_waiting :: "externals \<Rightarrow> Options \<Rightarrow> string \<Rightarrow> string \<Rightarrow> event" where
  "trigger_waiting x opts ns fullName =
     Infof ''waiting up to %s for a trigger to be added to the lighthouse configuration in ConfigMap %s in namespace %s for repository: %s''
       [info x (DurationString x (WaitDuration opts)), info x (LighthouseConfigMap opts),
        info x ns, info x fullName]"

fun trigger_loop ::
  "externals \<Rightarrow> Options \<Rightarrow> string \<Rightarrow> string \<Rightarrow> int \<Rightarrow> bool \<Rightarrow>
   (('pre, 'post) config load_result \<times> int) list \<Rightarrow>
   (bool \<times> error option) option \<times> event list" where
  "trigger_loop x opts ns fullName deadline logWaiting [] = (None, [])"
| "trigger_loop x opts ns fullName deadline logWaiting ((r, now) # rest) =
     (case r of
        LoadFailed err \<Rightarrow>
          (Some (False, Some (Wrapf err ''failed to load lighthouse config'' [])),
           [LoadLighthouseConfig])
      | Loaded cfg \<Rightarrow>
          if containsRepositoryTrigger cfg fullName
          then (Some (True, None), [LoadLighthouseConfig])
          else if deadline < now
          then (Some (False, Some (trigger_timeout x opts ns fullName)),
                [LoadLighthouseConfig, TimeNow])
          else
            (case trigger_loop x opts ns fullName deadline True rest of
               (res, evs) \<Rightarrow>
                 (res,
                  [LoadLighthouseConfig, TimeNow]
                  @ (if \<not> logWaiting then [trigger_waiting x opts ns fullName] else [])
                  @ [Sleep (PollPeriod opts)] @ evs)))"

text \<open>\<open>start\<close> is the reading of \<open>time.Now()\<close> on entry.\<close>

definition waitForRepositoryToBeSetup ::
  "externals \<Rightarrow> Options \<Rightarrow> string \<Rightarrow> string \<Rightarrow> int \<Rightarrow>
   (('pre, 'post) config load_result \<times> int) list \<Rightarrow>
   (bool \<times> error option) option \<times> event list" where
  "waitForRepositoryToBeSetup x opts ns fullName start obs =
     trigger_loop x opts ns fullName (start + WaitDuration opts) False obs"

section \<open>The webhook phase\<close>

subsection \<open>The SourceRepository resource and its annotations\<close>

record SourceRepository =
  Name :: string
  SpecURL :: string
  Annotations :: "(string, string) gomap"

text \<open>
  \<open>strings.HasPrefix\<close>, and \<open>strings.ToLower\<close> on the bytes of the string:
  the letters \<open>A\<close> to \<open>Z\<close> are lowered and every other byte is kept. Go lowers
  the runes of the UTF-8 text; no rune outside ASCII lowers to \<open>e\<close> or
  \<open>r\<close>, so the prefix test of the loop sees the same answer.
\<close>

definition HasPrefix :: "string \<Rightarrow> string \<Rightarrow> bool" where
  "HasPrefix s p = (length p \<le> length s \<and> take (length p) s = p)"

definition lower_byte :: "char \<Rightarrow> char" where
  "lower_byte c =
     (let n = (of_char c :: nat)
      in if 65 \<le> n \<and> n \<le> 90 then char_of (n + 32) else c)"

definition ToLower :: "string \<Rightarrow> string" where
  "ToLower s = map lower_byte s"

subsection \<open>One poll\<close>

text \<open>The three loop variables that survive an iteration.\<close>

record wait_state =
  lastValue :: string
  found :: bool
  lastFailMessage :: string

definition initial_state :: wait_state where
  "initial_state = \<lparr>lastValue = [], found = False, lastFailMessage = []\<rparr>"

text \<open>
  The branch taken when the fetch succeeded (the \<open>else\<close> of \<open>err != nil\<close>).
  The first component says whether the function returns \<open>nil\<close> from here.
\<close>

definition check_annotations ::
  "externals \<Rightarrow> wait_state \<Rightarrow> SourceRepository \<Rightarrow> bool \<times> wait_state \<times> event list" where
  "check_annotations x st sr =
     (let (st1, ev1) =
            (if \<not> found st
             then (st\<lparr>found := True\<rparr>,
                   [Infof ''found SourceRepository %s for %s'' [info x (Name sr), info x (SpecURL sr)]])
             else (st, []));
          annotations = (if Annotations sr = None then Some Map.empty else Annotations sr);
          value = map_index annotations [] ''webhook.jenkins-x.io''
      in if value \<noteq> [] then
           if value \<noteq> lastValue st1 then
             (let st2 = st1\<lparr>lastValue := value\<rparr>;
                  ev2 = ev1 @ [Infof ''webhook status annotation is: %s'' [info x value]]
              in if value = ''true'' then (True, st2, ev2)
                 else if HasPrefix (ToLower value) ''err'' then
                   (let failure = map_index annotations [] ''webhook.jenkins-x.io/error''
                    in if failure \<noteq> [] \<and> failure \<noteq> lastFailMessage st2
                       then (False, st2\<lparr>lastFailMessage := failure\<rparr>,
                             ev2 @ [Warnf ''when creating webhook: %s'' [failure]])
                       else (False, st2, ev2))
                 else (False, st2, ev2))
           else (False, st1, ev1)
         else (False, st1, ev1))"

datatype get_result = Got SourceRepository | GetFailed error

text \<open>The two annotations as the loop reads them, for stating properties.\<close>

definition webhook_status :: "SourceRepository \<Rightarrow> string" where
  "webhook_status sr = map_index (Annotations sr) [] ''webhook.jenkins-x.io''"

definition webhook_error :: "SourceRepository \<Rightarrow> string" where
  "webhook_error sr = map_index (Annotations sr) [] ''webhook.jenkins-x.io/error''"

text \<open>
  The part of an iteration before the deadline comparison: \<open>Inl\<close> is the
  error returned at once, \<open>Inr\<close> carries the outcome of the annotation check.
\<close>

definition poll_source_repository ::
  "externals \<Rightarrow> string \<Rightarrow> string \<Rightarrow> wait_state \<Rightarrow> get_result \<Rightarrow>
   error + (bool \<times> wait_state \<times> event list)" where
  "poll_source_repository x ns name st r =
     (case r of
        GetFailed err \<Rightarrow>
          if \<not> IsNotFound err
          then Inl (Wrapf err ''failed to find SourceRepository %s in namespace %s'' [name, ns])
          else Inr (False, st, [])
      | Got sr \<Rightarrow> Inr (check_annotations x st sr))"

subsection \<open>The loop\<close>

definition webhook_timeout ::
  "externals \<Rightarrow> Options \<Rightarrow> string \<Rightarrow> string \<Rightarrow> string \<Rightarrow> error" where
  "webhook_timeout x opts ns name fullName =
     Errorf ''failed to find trigger in the lighthouse configuration in ConfigMap %s in namespace %s for repository: %s within %s''
       [name, ns, fullName, DurationString x (WaitDuration opts)]"

definition webhook_waiting ::
  "externals \<Rightarrow> Options \<Rightarrow> string \<Rightarrow> string \<Rightarrow> string \<Rightarrow> event" where
  "webhook_waiting x opts ns name fullName =
     Infof ''waiting up to %s the webhook to be registered for the SourceRepository %s in namespace %s for repository: %s''
       [info x (DurationString x (WaitDuration opts)), info x name, info x ns, info x fullName]"

fun webhook_loop ::
  "externals \<Rightarrow> Options \<Rightarrow> string \<Rightarrow> string \<Rightarrow> string \<Rightarrow> int \<Rightarrow> bool \<Rightarrow> wait_state \<Rightarrow>
   (get_result \<times> int) list \<Rightarrow> error option option \<times> event list" where
  "webhook_loop x opts ns name fullName deadline logWaiting st [] = (None, [])"
| "webhook_loop x opts ns name fullName deadline logWaiting st ((r, now) # rest) =
     (case poll_source_repository x ns name st r of
        Inl e \<Rightarrow> (Some (Some e), [GetSourceRepository])
      | Inr (done, st', logs) \<Rightarrow>
          if done then (Some None, GetSourceRepository # logs)
          else if deadline < now
          then (Some (Some (webhook_timeout x opts ns name fullName)),
                GetSourceRepository # logs @ [TimeNow])
          else
            (case webhook_loop x opts ns name fullName deadline True st' rest of
               (res, evs) \<Rightarrow>
                 (res,
                  GetSourceRepository # logs @ [TimeNow]
                  @ (if \<not> logWaiting then [webhook_waiting x opts ns name fullName] else [])
                  @ [Sleep (PollPeriod opts)] @ evs)))"

definition waitForWebHookToBeSetup ::
  "externals \<Rightarrow> Options \<Rightarrow> string \<Rightarrow> string \<Rightarrow> string \<Rightarrow> int \<Rightarrow>
   (get_result \<times> int) list \<Rightarrow> error option option \<times> event list" where
  "waitForWebHookToBeSetup x opts ns owner repository start obs =
     webhook_loop x opts ns
       (ToValidName x (Owner opts @ ''-'' @ Repository opts))
       (Join x owner repository)
       (start + WaitDuration opts) False initial_state obs"

section \<open>The command\<close>

text \<open>
  \<open>Validate\<close> creates the two clients; what their constructors answer is
  given: the namespace or an error for the Kubernetes client, an error or
  nothing for the jx client.
\<close>

definition Validate :: "Options \<Rightarrow> error + string \<Rightarrow> error option \<Rightarrow> error + Options" where
  "Validate opts kube jx =
     (case kube of
        Inl err \<Rightarrow> Inl (Wrapf err ''failed to create kube client'' [])
      | Inr ns \<Rightarrow>
          (case jx of
             Some err \<Rightarrow> Inl (Wrapf err ''failed to create jx client'' [])
           | None \<Rightarrow>
               if Owner opts = [] then Inl (MissingOption ''owner'')
               else if Repository opts = [] then Inl (MissingOption ''repo'')
               else Inr (opts\<lparr>Namespace := ns\<rparr>)))"

definition not_yet_setup :: "string \<Rightarrow> error" where
  "not_yet_setup fullName = Errorf ''repository %s is not yet setup in lighthouse'' [fullName]"

text \<open>
  \<open>Run\<close> on the answers of the outside: the two client constructors, and for
  each phase the clock on entry and the observations of its iterations.
\<close>

definition Run ::
  "externals \<Rightarrow> Options \<Rightarrow> error + string \<Rightarrow> error option \<Rightarrow>
   int \<Rightarrow> (('pre, 'post) config load_result \<times> int) list \<Rightarrow>
   int \<Rightarrow> (get_result \<times> int) list \<Rightarrow> error option option \<times> event list" where
  "Run x opts kube jx start1 obs1 start2 obs2 =
     (case Validate opts kube jx of
        Inl err \<Rightarrow> (Some (Some (Wrapf err ''failed to validate options'' [])), [])
      | Inr checked \<Rightarrow>
          (let fullName = Join x (Owner checked) (Repository checked)
           in case waitForRepositoryToBeSetup x checked (Namespace checked) fullName start1 obs1 of
                (None, ev1) \<Rightarrow> (None, ev1)
              | (Some (exists, Some err), ev1) \<Rightarrow>
                  (Some (Some (Wrapf err ''failed to wait for repository to be setup in lighthouse'' [])), ev1)
              | (Some (exists, None), ev1) \<Rightarrow>
                  if \<not> exists then (Some (Some (not_yet_setup fullName)), ev1)
                  else
                    (case waitForWebHookToBeSetup x checked (Namespace checked) (Owner checked) (Repository checked) start2 obs2 of
                       (None, ev2) \<Rightarrow> (None, ev1 @ ev2)
                     | (Some (Some err), ev2) \<Rightarrow>
                         (Some (Some (Wrapf err ''failed to wait for repository to have its webhook enabled'' [])),
                          ev1 @ ev2)
                     | (Some None, ev2) \<Rightarrow>
                         (Some None,
                          ev1 @ ev2 @
                          [Infof ''the repository %s is now setup in lighthouse and has its webhook enabled''
                             [info x fullName]]))))"

subsection \<open>Reading a run\<close>

text \<open>The condition checks and the waiting line of each phase, as predicates on actions.\<close>

fun is_check :: "event \<Rightarrow> bool" where
  "is_check LoadLighthouseConfig = True"
| "is_check GetSourceRepository = True"
| "is_check e = False"

fun is_sleep :: "event \<Rightarrow> bool" where
  "is_sleep (Sleep d) = True"
| "is_sleep e = False"

fun is_warning :: "event \<Rightarrow> bool" where
  "is_warning (Warnf f args) = True"
| "is_warning e = False"

text \<open>The checks and the deadline comparisons of a run, in the order they happen.\<close>

definition checks_and_comparisons :: "event list \<Rightarrow> event list" where
  "checks_and_comparisons evs = filter (\<lambda>e. is_check e \<or> e = TimeNow) evs"

subsection \<open>Sample inputs\<close>

text \<open>
  The repository \<open>acme/widgets\<close> in namespace \<open>jx\<close>, a wait of ten and a poll
  period of two, and simple stand-ins for the helpers of other packages.
\<close>

definition acme_externals :: externals where
  "acme_externals =
     \<lparr>ToValidName = (\<lambda>s. s), Join = (\<lambda>a b. a @ ''/'' @ b),
      DurationString = (\<lambda>d. ''10ns''), info = (\<lambda>s. s)\<rparr>"

definition acme_options :: Options where
  "acme_options =
     \<lparr>WaitDuration = 10, PollPeriod = 2, Owner = ''acme'', Repository = ''widgets'',
      LighthouseConfigMap = ''config'', Namespace = ''jx''\<rparr>"

definition postsubmit_config :: "(unit, unit) config" where
  "postsubmit_config =
     \<lparr>Presubmits = None, Postsubmits = Some [''acme/widgets'' \<mapsto> Some [()]],
      InRepoConfigEnabled = None\<rparr>"

definition presubmit_config :: "(unit, unit) config" where
  "presubmit_config =
     \<lparr>Presubmits = Some [''acme/widgets'' \<mapsto> Some [()]], Postsubmits = Some Map.empty,
      InRepoConfigEnabled = None\<rparr>"

definition nil_postsubmit_config :: "(unit, unit) config" where
  "nil_postsubmit_config =
     \<lparr>Presubmits = None, Postsubmits = Some [''acme/widgets'' \<mapsto> None],
      InRepoConfigEnabled = None\<rparr>"

definition annotated :: "(string \<rightharpoonup> string) \<Rightarrow> SourceRepository" where
  "annotated tbl =
     \<lparr>Name = ''acme-widgets'', SpecURL = ''https://example.org/acme/widgets'',
      Annotations = Some tbl\<rparr>"

section \<open>Properties of the trigger match\<close>

lemma map_index_Some_iff:
  "map_index m None k = Some v \<longleftrightarrow> (\<exists>tbl. m = Some tbl \<and> tbl k = Some (Some v))"
  by (auto simp: map_index_def split: option.splits)

text \<open>
  C1 (as amended). The match decision is a three-step lookup on the stored
  values: if the postsubmit map holds an entry for the name whose job list is
  not \<open>nil\<close>, the result is true whatever the override map holds; otherwise, if
  the in-repo-config override map holds a pointer for the name that is not \<open>nil\<close>,
  the result is the boolean it points to (a stored false yields false);
  otherwise (no entry, or an entry holding \<open>nil\<close>) the result is false.
\<close>

theorem containsRepositoryTrigger_stored_values:
  "containsRepositoryTrigger cfg fullName =
     (if has_entry (Postsubmits cfg) fullName \<and> \<not> nil_entry (Postsubmits cfg) fullName then True
      else (case map_index (InRepoConfigEnabled cfg) None fullName of
              Some b \<Rightarrow> b
            | None \<Rightarrow> False))"
  by (auto simp: containsRepositoryTrigger_def map_index_def has_entry_def nil_entry_def
           split: option.splits)

text \<open>
  C1 as stated fails: a postsubmit map with an entry for the name whose job
  list is \<open>nil\<close> has the entry, and the decision is false.
\<close>

theorem nil_postsubmit_entry_counterexample:
  "has_entry (Postsubmits nil_postsubmit_config) ''acme/widgets''
   \<and> \<not> containsRepositoryTrigger nil_postsubmit_config ''acme/widgets''"
  by (simp add: nil_postsubmit_config_def has_entry_def containsRepositoryTrigger_def
        map_index_def)

section \<open>Properties of the trigger phase\<close>

lemma trigger_loop_flag:
  "fst (trigger_loop x opts ns fullName deadline lw obs) = Some (b, e) \<Longrightarrow> b = (e = None)"
proof (induction obs arbitrary: lw)
  case Nil
  then show ?case by simp
next
  case (Cons a obs)
  obtain r now where a: "a = (r, now)" by (cases a)
  show ?case
  proof (cases r)
    case (LoadFailed err)
    with Cons.prems a show ?thesis by auto
  next
    case (Loaded cfg)
    with Cons.prems a Cons.IH [of True] show ?thesis
      by (auto split: if_splits prod.splits)
  qed
qed

text \<open>
  C9. The trigger-phase wait never returns \<open>(false, nil)\<close>: whenever it
  returns, its flag is true exactly when its error is \<open>nil\<close>. Hence \<open>Run\<close>
  never returns the error "repository ... is not yet setup in lighthouse".
\<close>

theorem trigger_wait_never_false_nil:
  "fst (waitForRepositoryToBeSetup x opts ns fullName start obs) \<noteq> Some (False, None)
   \<and> (\<forall>b e. fst (waitForRepositoryToBeSetup x opts ns fullName start obs) = Some (b, e)
         \<longrightarrow> b = (e = None))
   \<and> fst (Run x opts kube jx start1 obs1 start2 obs2) \<noteq> Some (Some (not_yet_setup name))"
proof (intro conjI allI impI)
  show "fst (waitForRepositoryToBeSetup x opts ns fullName start obs) \<noteq> Some (False, None)"
    using trigger_loop_flag [of x opts ns fullName "start + WaitDuration opts" False obs False None]
    by (auto simp: waitForRepositoryToBeSetup_def)
next
  fix b e
  assume "fst (waitForRepositoryToBeSetup x opts ns fullName start obs) = Some (b, e)"
  then show "b = (e = None)"
    unfolding waitForRepositoryToBeSetup_def by (rule trigger_loop_flag)
next
  show "fst (Run x opts kube jx start1 obs1 start2 obs2) \<noteq> Some (Some (not_yet_setup name))"
  proof (cases "Validate opts kube jx")
    case (Inl err)
    then show ?thesis by (simp add: Run_def not_yet_setup_def)
  next
    case (Inr checked)
    let ?fn = "Join x (Owner checked) (Repository checked)"
    let ?w = "waitForRepositoryToBeSetup x checked (Namespace checked) ?fn start1 obs1"
    have nf: "fst ?w \<noteq> Some (False, None)"
      using trigger_loop_flag [of x checked "Namespace checked" ?fn
          "start1 + WaitDuration checked" False obs1 False None]
      by (auto simp: waitForRepositoryToBeSetup_def)
    obtain res ev1 where w: "?w = (res, ev1)" by (cases ?w)
    show ?thesis
    proof (cases res)
      case None
      with Inr w show ?thesis by (simp add: Run_def Let_def)
    next
      case (Some p)
      obtain ex er where p: "p = (ex, er)" by (cases p)
      show ?thesis
      proof (cases er)
        case (Some err)
        with Inr w p \<open>res = Some p\<close> show ?thesis
          by (simp add: Run_def Let_def not_yet_setup_def)
      next
        case None
        with nf w p \<open>res = Some p\<close> have ex: "ex" by auto
        obtain r2 ev2 where w2:
          "waitForWebHookToBeSetup x checked (Namespace checked) (Owner checked)
             (Repository checked) start2 obs2 = (r2, ev2)"
          by (cases "waitForWebHookToBeSetup x checked (Namespace checked) (Owner checked)
             (Repository checked) start2 obs2")
        from Inr w p \<open>res = Some p\<close> None ex w2 show ?thesis
          by (auto simp: Run_def Let_def not_yet_setup_def split: option.splits)
      qed
    qed
  qed
qed

theorem trigger_wait_never_false_nil_witness:
  "fst (waitForRepositoryToBeSetup acme_externals acme_options ''jx'' ''acme/widgets'' 0
          [(Loaded postsubmit_config, 1)]) = Some (True, None)
   \<and> fst (Run acme_externals acme_options (Inr ''jx'') None 0 [(Loaded postsubmit_config, 1)] 2 [])
       \<noteq> Some (Some (not_yet_setup ''acme/widgets''))"
  using trigger_wait_never_false_nil [of acme_externals acme_options "''jx''" "''acme/widgets''" 0
      "[(Loaded postsubmit_config, 1)]" "Inr ''jx''" None 0 "[(Loaded postsubmit_config, 1)]" 2 "[]"
      "''acme/widgets''"]
  by (simp add: waitForRepositoryToBeSetup_def containsRepositoryTrigger_def map_index_def
        postsubmit_config_def)

lemma trigger_loop_fetch_error:
  "fst (trigger_loop x opts ns fullName deadline lw pre) = None \<Longrightarrow>
   trigger_loop x opts ns fullName deadline lw (pre @ (LoadFailed err, now) # rest) =
     (Some (False, Some (Wrapf err ''failed to load lighthouse config'' [])),
      snd (trigger_loop x opts ns fullName deadline lw pre) @ [LoadLighthouseConfig])"
proof (induction pre arbitrary: lw)
  case Nil
  then show ?case by simp
next
  case (Cons a pre)
  obtain r t where a: "a = (r, t)" by (cases a)
  show ?case
  proof (cases r)
    case (LoadFailed e)
    with Cons.prems a show ?thesis by simp
  next
    case (Loaded cfg)
    with Cons.prems a have go: "\<not> containsRepositoryTrigger cfg fullName" "\<not> deadline < t"
      and still: "fst (trigger_loop x opts ns fullName deadline True pre) = None"
      by (auto split: if_splits prod.splits)
    from Cons.IH [OF still] go a Loaded show ?thesis
      by (simp split: prod.splits)
  qed
qed

text \<open>
  C6. If loading the configuration fails on an iteration of the trigger phase
  (the iterations before it having gone on to sleep), the phase returns at
  once with that error wrapped as "failed to load lighthouse config": the
  trace ends with the failed load, with no deadline comparison, log line, sleep
  or further load after it, and later observations play no part.
\<close>

theorem trigger_fetch_error_returns_at_once:
  assumes "fst (waitForRepositoryToBeSetup x opts ns fullName start pre) = None"
  shows "waitForRepositoryToBeSetup x opts ns fullName start (pre @ (LoadFailed err, now) # rest) =
     (Some (False, Some (Wrapf err ''failed to load lighthouse config'' [])),
      snd (waitForRepositoryToBeSetup x opts ns fullName start pre) @ [LoadLighthouseConfig])"
  using assms unfolding waitForRepositoryToBeSetup_def by (rule trigger_loop_fetch_error)

theorem trigger_fetch_error_returns_at_once_witness:
  "fst (waitForRepositoryToBeSetup acme_externals acme_options ''jx'' ''acme/widgets'' 0
          [(Loaded presubmit_config, 1)]) = None
   \<and> waitForRepositoryToBeSetup acme_externals acme_options ''jx'' ''acme/widgets'' 0
        ([(Loaded presubmit_config, 1)] @
          (LoadFailed (ExternalError False ''connection refused''), 3) # [(Loaded postsubmit_config, 5)]) =
       (Some (False, Some (Wrapf (ExternalError False ''connection refused'')
                 ''failed to load lighthouse config'' [])),
        [LoadLighthouseConfig, TimeNow,
         trigger_waiting acme_externals acme_options ''jx'' ''acme/widgets'',
         Sleep 2, LoadLighthouseConfig])"
proof -
  have h: "fst (waitForRepositoryToBeSetup acme_externals acme_options ''jx'' ''acme/widgets'' 0
          [(Loaded presubmit_config, 1)]) = None"
    by (simp add: waitForRepositoryToBeSetup_def containsRepositoryTrigger_def map_index_def
        presubmit_config_def acme_options_def)
  show ?thesis
    using h trigger_fetch_error_returns_at_once [OF h, of "ExternalError False ''connection refused''" 3
        "[(Loaded postsubmit_config, 5)]"]
    by (simp add: waitForRepositoryToBeSetup_def containsRepositoryTrigger_def map_index_def
        presubmit_config_def acme_options_def)
qed

text \<open>
  A still-polling run followed by more observations: the later iterations
  start with the waiting line already logged unless no iteration came before.
\<close>

lemma trigger_loop_append:
  "fst (trigger_loop x opts ns fullName deadline lw pre) = None \<Longrightarrow>
   trigger_loop x opts ns fullName deadline lw (pre @ rest) =
     (fst (trigger_loop x opts ns fullName deadline (lw \<or> pre \<noteq> []) rest),
      snd (trigger_loop x opts ns fullName deadline lw pre)
      @ snd (trigger_loop x opts ns fullName deadline (lw \<or> pre \<noteq> []) rest))"
proof (induction pre arbitrary: lw)
  case Nil
  show ?case by simp
next
  case (Cons a pre)
  obtain r t where a: "a = (r, t)" by (cases a)
  from Cons.prems a obtain cfg where r: "r = Loaded cfg"
    and go: "\<not> containsRepositoryTrigger cfg fullName" "\<not> deadline < t"
    and still: "fst (trigger_loop x opts ns fullName deadline True pre) = None"
    by (cases r) (auto split: if_splits prod.splits)
  from Cons.IH [OF still] a r go show ?case
    by (simp split: prod.splits)
qed

lemma trigger_loop_polling_trace:
  "fst (trigger_loop x opts ns fullName deadline lw pre) = None \<Longrightarrow>
   checks_and_comparisons (snd (trigger_loop x opts ns fullName deadline lw pre)) =
     concat (replicate (length pre) [LoadLighthouseConfig, TimeNow])"
proof (induction pre arbitrary: lw)
  case Nil
  show ?case by (simp add: checks_and_comparisons_def)
next
  case (Cons a pre)
  obtain r t where a: "a = (r, t)" by (cases a)
  from Cons.prems a obtain cfg where r: "r = Loaded cfg"
    and go: "\<not> containsRepositoryTrigger cfg fullName" "\<not> deadline < t"
    and still: "fst (trigger_loop x opts ns fullName deadline True pre) = None"
    by (cases r) (auto split: if_splits prod.splits)
  from Cons.IH [OF still] a r go show ?case
    by (auto simp: checks_and_comparisons_def trigger_waiting_def split: prod.splits)
qed

lemma trigger_loop_step:
  assumes "fst (trigger_loop x opts ns fullName deadline False pre) = None"
  shows "trigger_loop x opts ns fullName deadline False (pre @ (Loaded cfg, now) # rest) =
     (if containsRepositoryTrigger cfg fullName
      then (Some (True, None),
            snd (trigger_loop x opts ns fullName deadline False pre) @ [LoadLighthouseConfig])
      else if deadline < now
      then (Some (False, Some (trigger_timeout x opts ns fullName)),
            snd (trigger_loop x opts ns fullName deadline False pre)
            @ [LoadLighthouseConfig, TimeNow])
      else (fst (trigger_loop x opts ns fullName deadline True rest),
            snd (trigger_loop x opts ns fullName deadline False pre)
            @ [LoadLighthouseConfig, TimeNow]
            @ (if pre = [] then [trigger_waiting x opts ns fullName] else [])
            @ [Sleep (PollPeriod opts)]
            @ snd (trigger_loop x opts ns fullName deadline True rest)))"
  unfolding trigger_loop_append [OF assms]
  by (simp split: prod.splits)

text \<open>
  C10. A repository with an entry in the presubmit map only, and none in the
  postsubmit map or the in-repo-config override map, has no trigger: the
  decision is false and does not depend on the presubmit map at all. Hence
  the trigger phase keeps waiting: at any iteration it has reached, loading
  such a configuration before the deadline leaves the phase polling, with the
  load, the deadline comparison, the waiting line if this is the first
  iteration, and the sleep added to its trace; loading it after the deadline
  returns the timeout error, never success.
\<close>

theorem presubmit_only_is_no_trigger:
  assumes "has_entry (Presubmits cfg) fullName"
    and "\<not> has_entry (Postsubmits cfg) fullName"
    and "\<not> has_entry (InRepoConfigEnabled cfg) fullName"
    and "fst (waitForRepositoryToBeSetup x opts ns fullName start pre) = None"
  shows "\<not> containsRepositoryTrigger cfg fullName
    \<and> containsRepositoryTrigger (cfg\<lparr>Presubmits := p\<rparr>) fullName = containsRepositoryTrigger cfg fullName
    \<and> (\<not> start + WaitDuration opts < now \<longrightarrow>
         waitForRepositoryToBeSetup x opts ns fullName start (pre @ [(Loaded cfg, now)]) =
           (None,
            snd (waitForRepositoryToBeSetup x opts ns fullName start pre)
            @ [LoadLighthouseConfig, TimeNow]
            @ (if pre = [] then [trigger_waiting x opts ns fullName] else [])
            @ [Sleep (PollPeriod opts)]))
    \<and> (start + WaitDuration opts < now \<longrightarrow>
         waitForRepositoryToBeSetup x opts ns fullName start (pre @ (Loaded cfg, now) # rest) =
           (Some (False, Some (trigger_timeout x opts ns fullName)),
            snd (waitForRepositoryToBeSetup x opts ns fullName start pre)
            @ [LoadLighthouseConfig, TimeNow]))"
proof -
  from assms(2,3) have no: "\<not> containsRepositoryTrigger cfg fullName"
    by (auto simp: containsRepositoryTrigger_def map_index_def has_entry_def split: option.splits)
  have same: "containsRepositoryTrigger (cfg\<lparr>Presubmits := p\<rparr>) fullName = containsRepositoryTrigger cfg fullName"
    by (simp add: containsRepositoryTrigger_def)
  from assms(4) have pre: "fst (trigger_loop x opts ns fullName (start + WaitDuration opts) False pre) = None"
    by (simp add: waitForRepositoryToBeSetup_def)
  have waits: "\<not> start + WaitDuration opts < now \<longrightarrow>
         waitForRepositoryToBeSetup x opts ns fullName start (pre @ [(Loaded cfg, now)]) =
           (None,
            snd (waitForRepositoryToBeSetup x opts ns fullName start pre)
            @ [LoadLighthouseConfig, TimeNow]
            @ (if pre = [] then [trigger_waiting x opts ns fullName] else [])
            @ [Sleep (PollPeriod opts)])"
    using no by (simp add: waitForRepositoryToBeSetup_def trigger_loop_step [OF pre])
  have late: "start + WaitDuration opts < now \<longrightarrow>
         waitForRepositoryToBeSetup x opts ns fullName start (pre @ (Loaded cfg, now) # rest) =
           (Some (False, Some (trigger_timeout x opts ns fullName)),
            snd (waitForRepositoryToBeSetup x opts ns fullName start pre)
            @ [LoadLighthouseConfig, TimeNow])"
    using no by (simp add: waitForRepositoryToBeSetup_def trigger_loop_step [OF pre])
  from no same waits late show ?thesis by blast
qed

theorem presubmit_only_is_no_trigger_witness:
  "has_entry (Presubmits presubmit_config) ''acme/widgets''
   \<and> \<not> has_entry (Postsubmits presubmit_config) ''acme/widgets''
   \<and> \<not> has_entry (InRepoConfigEnabled presubmit_config) ''acme/widgets''
   \<and> fst (waitForRepositoryToBeSetup acme_externals acme_options ''jx'' ''acme/widgets'' 0
        [(Loaded presubmit_config, 1)]) = None
   \<and> \<not> containsRepositoryTrigger presubmit_config ''acme/widgets''
   \<and> waitForRepositoryToBeSetup acme_externals acme_options ''jx'' ''acme/widgets'' 0
        ([(Loaded presubmit_config, 1)] @ [(Loaded presubmit_config, 3)]) =
       (None,
        [LoadLighthouseConfig, TimeNow,
         trigger_waiting acme_externals acme_options ''jx'' ''acme/widgets'', Sleep 2,
         LoadLighthouseConfig, TimeNow, Sleep 2])
   \<and> waitForRepositoryToBeSetup acme_externals acme_options ''jx'' ''acme/widgets'' 0
        ([(Loaded presubmit_config, 1)] @ (Loaded presubmit_config, 11) # []) =
       (Some (False, Some (trigger_timeout acme_externals acme_options ''jx'' ''acme/widgets'')),
        [LoadLighthouseConfig, TimeNow,
         trigger_waiting acme_externals acme_options ''jx'' ''acme/widgets'', Sleep 2,
         LoadLighthouseConfig, TimeNow])"
proof -
  let ?pre = "[(Loaded presubmit_config, 1)]"
  have h1: "has_entry (Presubmits presubmit_config) ''acme/widgets''"
    by (simp add: presubmit_config_def has_entry_def)
  have h2: "\<not> has_entry (Postsubmits presubmit_config) ''acme/widgets''"
    by (simp add: presubmit_config_def has_entry_def)
  have h3: "\<not> has_entry (InRepoConfigEnabled presubmit_config) ''acme/widgets''"
    by (simp add: presubmit_config_def has_entry_def)
  have pre: "waitForRepositoryToBeSetup acme_externals acme_options ''jx'' ''acme/widgets'' 0 ?pre =
      (None, [LoadLighthouseConfig, TimeNow,
         trigger_waiting acme_externals acme_options ''jx'' ''acme/widgets'', Sleep 2])"
    by (simp add: waitForRepositoryToBeSetup_def containsRepositoryTrigger_def map_index_def
        presubmit_config_def acme_options_def)
  then have h4: "fst (waitForRepositoryToBeSetup acme_externals acme_options ''jx'' ''acme/widgets'' 0
        ?pre) = None"
    by simp
  have t: "\<not> (0::int) + WaitDuration acme_options < 3" "(0::int) + WaitDuration acme_options < 11"
    "PollPeriod acme_options = 2"
    by (simp_all add: acme_options_def)
  note i1 = presubmit_only_is_no_trigger [OF h1 h2 h3 h4, where p = None and now = 3 and rest = "[]"]
  note i2 = presubmit_only_is_no_trigger [OF h1 h2 h3 h4, where p = None and now = 11 and rest = "[]"]
  from i1 have c0: "\<not> containsRepositoryTrigger presubmit_config ''acme/widgets''"
    by auto
  from i1 t pre have c1: "waitForRepositoryToBeSetup acme_externals acme_options ''jx'' ''acme/widgets'' 0
        (?pre @ [(Loaded presubmit_config, 3)]) =
       (None,
        [LoadLighthouseConfig, TimeNow,
         trigger_waiting acme_externals acme_options ''jx'' ''acme/widgets'', Sleep 2,
         LoadLighthouseConfig, TimeNow, Sleep 2])"
    by auto
  from i2 t pre have c2: "waitForRepositoryToBeSetup acme_externals acme_options ''jx'' ''acme/widgets'' 0
        (?pre @ (Loaded presubmit_config, 11) # []) =
       (Some (False, Some (trigger_timeout acme_externals acme_options ''jx'' ''acme/widgets'')),
        [LoadLighthouseConfig, TimeNow,
         trigger_waiting acme_externals acme_options ''jx'' ''acme/widgets'', Sleep 2,
         LoadLighthouseConfig, TimeNow])"
    by auto
  from h1 h2 h3 h4 c0 c1 c2 show ?thesis by blast
qed

section \<open>Properties of one webhook poll\<close>

lemma map_index_nil_map:
  "map_index (if m = None then Some Map.empty else m) z k = map_index m z k"
  by (simp add: map_index_def split: option.splits)

lemma true_not_err: "\<not> HasPrefix (ToLower ''true'') ''err''"
  by (simp add: HasPrefix_def ToLower_def lower_byte_def)

lemma check_annotations_done:
  "fst (check_annotations x st sr) = (webhook_status sr = ''true'' \<and> lastValue st \<noteq> ''true'')"
  by (auto simp: check_annotations_def webhook_status_def map_index_nil_map Let_def)

lemma check_annotations_err_continues:
  "HasPrefix (ToLower (webhook_status sr)) ''err'' \<Longrightarrow> \<not> fst (check_annotations x st sr)"
  using true_not_err by (auto simp: check_annotations_done)

lemma check_annotations_state:
  "fst (snd (check_annotations x st sr)) =
     (if webhook_status sr \<noteq> [] \<and> webhook_status sr \<noteq> lastValue st then
        \<lparr>lastValue = webhook_status sr, found = True,
         lastFailMessage =
           (if HasPrefix (ToLower (webhook_status sr)) ''err'' \<and> webhook_status sr \<noteq> ''true''
               \<and> webhook_error sr \<noteq> []
            then webhook_error sr else lastFailMessage st)\<rparr>
      else st\<lparr>found := True\<rparr>)"
  by (auto simp: check_annotations_def webhook_status_def webhook_error_def map_index_nil_map Let_def)

lemma check_annotations_warnings:
  "filter is_warning (snd (snd (check_annotations x st sr))) =
     (if webhook_status sr \<noteq> [] \<and> webhook_status sr \<noteq> lastValue st
         \<and> webhook_status sr \<noteq> ''true''
         \<and> HasPrefix (ToLower (webhook_status sr)) ''err''
         \<and> webhook_error sr \<noteq> [] \<and> webhook_error sr \<noteq> lastFailMessage st
      then [Warnf ''when creating webhook: %s'' [webhook_error sr]] else [])"
  by (auto simp: check_annotations_def webhook_status_def webhook_error_def map_index_nil_map Let_def)

section \<open>Properties of the webhook phase\<close>

lemma webhook_loop_continue:
  assumes "poll_source_repository x ns name st g = Inr (False, st', logs)"
  shows "fst (webhook_loop x opts ns name fullName deadline lw st ((g, now) # rest)) =
     (if deadline < now then Some (Some (webhook_timeout x opts ns name fullName))
      else fst (webhook_loop x opts ns name fullName deadline True st' rest))"
  using assms by (simp split: prod.splits)

lemma webhook_loop_ends_only:
  "fst (webhook_loop x opts ns name fullName deadline lw st obs) = Some r \<Longrightarrow>
   \<exists>pre g now post. obs = pre @ (g, now) # post
     \<and> fst (webhook_loop x opts ns name fullName deadline lw st pre) = None
     \<and> ((r = None \<and> (\<exists>sr. g = Got sr \<and> webhook_status sr = ''true''))
        \<or> (r = Some (webhook_timeout x opts ns name fullName) \<and> deadline < now)
        \<or> (\<exists>err. g = GetFailed err \<and> \<not> IsNotFound err
             \<and> r = Some (Wrapf err ''failed to find SourceRepository %s in namespace %s'' [name, ns])))"
proof (induction obs arbitrary: lw st)
  case Nil
  then show ?case by simp
next
  case (Cons a obs)
  obtain g now where a: "a = (g, now)" by (cases a)
  show ?case
  proof (cases "poll_source_repository x ns name st g")
    case (Inl e)
    then obtain err where g: "g = GetFailed err" "\<not> IsNotFound err"
      and e: "e = Wrapf err ''failed to find SourceRepository %s in namespace %s'' [name, ns]"
      by (auto simp: poll_source_repository_def split: get_result.splits if_splits)
    from Cons.prems a Inl have "r = Some e" by simp
    with g e a have "a # obs = [] @ (g, now) # obs
      \<and> fst (webhook_loop x opts ns name fullName deadline lw st []) = None
      \<and> (\<exists>err. g = GetFailed err \<and> \<not> IsNotFound err
             \<and> r = Some (Wrapf err ''failed to find SourceRepository %s in namespace %s'' [name, ns]))"
      by simp
    then show ?thesis by blast
  next
    case (Inr t)
    obtain fin st' logs where t: "t = (fin, st', logs)" by (cases t)
    show ?thesis
    proof (cases fin)
      case True
      with Inr t obtain sr where "g = Got sr" "webhook_status sr = ''true''"
        by (auto simp: poll_source_repository_def split: get_result.splits if_splits
            dest: arg_cong [where f = fst] simp: check_annotations_done)
      moreover from Cons.prems a Inr t True have "r = None" by simp
      ultimately have "a # obs = [] @ (g, now) # obs
        \<and> fst (webhook_loop x opts ns name fullName deadline lw st []) = None
        \<and> r = None \<and> (\<exists>sr. g = Got sr \<and> webhook_status sr = ''true'')"
        using a by simp
      then show ?thesis by blast
    next
      case False
      with Inr t have poll: "poll_source_repository x ns name st g = Inr (False, st', logs)"
        by simp
      note cont = webhook_loop_continue [OF poll, of opts fullName deadline lw now]
      show ?thesis
      proof (cases "deadline < now")
        case True
        with Cons.prems a cont have "r = Some (webhook_timeout x opts ns name fullName)"
          by simp
        with True a have "a # obs = [] @ (g, now) # obs
          \<and> fst (webhook_loop x opts ns name fullName deadline lw st []) = None
          \<and> r = Some (webhook_timeout x opts ns name fullName) \<and> deadline < now"
          by simp
        then show ?thesis by blast
      next
        case late: False
        with Cons.prems a cont
        have "fst (webhook_loop x opts ns name fullName deadline True st' obs) = Some r"
          by simp
        from Cons.IH [OF this] obtain pre g' now' post where
          split: "obs = pre @ (g', now') # post"
          and still: "fst (webhook_loop x opts ns name fullName deadline True st' pre) = None"
          and why: "(r = None \<and> (\<exists>sr. g' = Got sr \<and> webhook_status sr = ''true''))
            \<or> (r = Some (webhook_timeout x opts ns name fullName) \<and> deadline < now')
            \<or> (\<exists>err. g' = GetFailed err \<and> \<not> IsNotFound err
                 \<and> r = Some (Wrapf err ''failed to find SourceRepository %s in namespace %s'' [name, ns]))"
          by blast
        have "fst (webhook_loop x opts ns name fullName deadline lw st ((g, now) # pre)) = None"
          using webhook_loop_continue [OF poll, of opts fullName deadline lw now pre]
            late still by simp
        with split a why have "a # obs = (a # pre) @ (g', now') # post
          \<and> fst (webhook_loop x opts ns name fullName deadline lw st (a # pre)) = None
          \<and> ((r = None \<and> (\<exists>sr. g' = Got sr \<and> webhook_status sr = ''true''))
            \<or> (r = Some (webhook_timeout x opts ns name fullName) \<and> deadline < now')
            \<or> (\<exists>err. g' = GetFailed err \<and> \<not> IsNotFound err
                 \<and> r = Some (Wrapf err ''failed to find SourceRepository %s in namespace %s'' [name, ns])))"
          by simp
        then show ?thesis by blast
      qed
    qed
  qed
qed

lemma webhook_loop_append:
  "fst (webhook_loop x opts ns name fullName deadline lw st pre) = None \<Longrightarrow>
   \<exists>lw' st'. \<forall>rest.
     webhook_loop x opts ns name fullName deadline lw st (pre @ rest) =
       (fst (webhook_loop x opts ns name fullName deadline lw' st' rest),
        snd (webhook_loop x opts ns name fullName deadline lw st pre)
        @ snd (webhook_loop x opts ns name fullName deadline lw' st' rest))"
proof (induction pre arbitrary: lw st)
  case Nil
  have "\<forall>rest. webhook_loop x opts ns name fullName deadline lw st ([] @ rest) =
       (fst (webhook_loop x opts ns name fullName deadline lw st rest),
        snd (webhook_loop x opts ns name fullName deadline lw st [])
        @ snd (webhook_loop x opts ns name fullName deadline lw st rest))"
    by simp
  then show ?case by blast
next
  case (Cons a pre)
  obtain g now where a: "a = (g, now)" by (cases a)
  from Cons.prems a obtain st1 logs where
    poll: "poll_source_repository x ns name st g = Inr (False, st1, logs)"
    and early: "\<not> deadline < now"
    and still: "fst (webhook_loop x opts ns name fullName deadline True st1 pre) = None"
    by (auto split: sum.splits prod.splits if_splits)
  from Cons.IH [OF still] obtain lw' st' where
    ih: "\<And>rest. webhook_loop x opts ns name fullName deadline True st1 (pre @ rest) =
       (fst (webhook_loop x opts ns name fullName deadline lw' st' rest),
        snd (webhook_loop x opts ns name fullName deadline True st1 pre)
        @ snd (webhook_loop x opts ns name fullName deadline lw' st' rest))"
    by blast
  have "\<forall>rest. webhook_loop x opts ns name fullName deadline lw st ((a # pre) @ rest) =
       (fst (webhook_loop x opts ns name fullName deadline lw' st' rest),
        snd (webhook_loop x opts ns name fullName deadline lw st (a # pre))
        @ snd (webhook_loop x opts ns name fullName deadline lw' st' rest))"
    using a poll early ih by (simp split: prod.splits)
  then show ?case by blast
qed

lemma webhook_loop_get_failed:
  "webhook_loop x opts ns name fullName deadline lw st ((GetFailed err, now) # rest) =
     (if \<not> IsNotFound err
      then (Some (Some (Wrapf err ''failed to find SourceRepository %s in namespace %s'' [name, ns])),
            [GetSourceRepository])
      else if deadline < now
      then (Some (Some (webhook_timeout x opts ns name fullName)), [GetSourceRepository, TimeNow])
      else (fst (webhook_loop x opts ns name fullName deadline True st rest),
            [GetSourceRepository, TimeNow]
            @ (if \<not> lw then [webhook_waiting x opts ns name fullName] else [])
            @ [Sleep (PollPeriod opts)]
            @ snd (webhook_loop x opts ns name fullName deadline True st rest)))"
  by (simp add: poll_source_repository_def split: prod.splits)

text \<open>
  C7. In the webhook phase, whatever the polls so far observed (the phase
  still polling): a fetch that fails with "not found" changes no loop variable
  and logs nothing, and the phase times out if the deadline has passed at
  this iteration and is still polling otherwise; a fetch that fails with any
  other error ends the phase at once with that error, wrapped as "failed to find
  SourceRepository ... in namespace ...", and nothing happens after the fetch.
\<close>

theorem not_found_keeps_polling:
  assumes "fst (waitForWebHookToBeSetup x opts ns owner repository start pre) = None"
  shows "(IsNotFound err \<longrightarrow>
            poll_source_repository x ns name st (GetFailed err) = Inr (False, st, [])
          \<and> fst (waitForWebHookToBeSetup x opts ns owner repository start
                   (pre @ [(GetFailed err, now)])) =
              (if start + WaitDuration opts < now
               then Some (Some (webhook_timeout x opts ns
                      (ToValidName x (Owner opts @ ''-'' @ Repository opts))
                      (Join x owner repository)))
               else None))
       \<and> (\<not> IsNotFound err \<longrightarrow>
            waitForWebHookToBeSetup x opts ns owner repository start
              (pre @ (GetFailed err, now) # rest) =
              (Some (Some (Wrapf err ''failed to find SourceRepository %s in namespace %s''
                             [ToValidName x (Owner opts @ ''-'' @ Repository opts), ns])),
               snd (waitForWebHookToBeSetup x opts ns owner repository start pre)
               @ [GetSourceRepository]))"
proof -
  let ?name = "ToValidName x (Owner opts @ ''-'' @ Repository opts)"
  let ?fn = "Join x owner repository"
  let ?d = "start + WaitDuration opts"
  from assms have "fst (webhook_loop x opts ns ?name ?fn ?d False initial_state pre) = None"
    by (simp add: waitForWebHookToBeSetup_def)
  from webhook_loop_append [OF this] obtain lw' st' where
    app: "\<And>rest. webhook_loop x opts ns ?name ?fn ?d False initial_state (pre @ rest) =
       (fst (webhook_loop x opts ns ?name ?fn ?d lw' st' rest),
        snd (webhook_loop x opts ns ?name ?fn ?d False initial_state pre)
        @ snd (webhook_loop x opts ns ?name ?fn ?d lw' st' rest))"
    by blast
  have a: "IsNotFound err \<Longrightarrow>
      poll_source_repository x ns name st (GetFailed err) = Inr (False, st, [])"
    by (simp add: poll_source_repository_def)
  have b: "IsNotFound err \<Longrightarrow>
      fst (waitForWebHookToBeSetup x opts ns owner repository start (pre @ [(GetFailed err, now)])) =
        (if ?d < now then Some (Some (webhook_timeout x opts ns ?name ?fn)) else None)"
    unfolding waitForWebHookToBeSetup_def app webhook_loop_get_failed by simp
  have c: "\<not> IsNotFound err \<Longrightarrow>
      waitForWebHookToBeSetup x opts ns owner repository start (pre @ (GetFailed err, now) # rest) =
        (Some (Some (Wrapf err ''failed to find SourceRepository %s in namespace %s'' [?name, ns])),
         snd (waitForWebHookToBeSetup x opts ns owner repository start pre) @ [GetSourceRepository])"
    unfolding waitForWebHookToBeSetup_def app webhook_loop_get_failed by simp
  from a b c show ?thesis by blast
qed

text \<open>The definitions a concrete run of the webhook phase unfolds.\<close>

lemmas run_defs =
  waitForWebHookToBeSetup_def poll_source_repository_def check_annotations_def map_index_def
  initial_state_def acme_externals_def acme_options_def annotated_def HasPrefix_def ToLower_def
  lower_byte_def Let_def webhook_timeout_def webhook_waiting_def

theorem not_found_keeps_polling_witness:
  "fst (waitForWebHookToBeSetup acme_externals acme_options ''jx'' ''acme'' ''widgets'' 0
          [(GetFailed (ExternalError True ''not found''), 1)]) = None
   \<and> IsNotFound (ExternalError True ''not found'')
   \<and> fst (waitForWebHookToBeSetup acme_externals acme_options ''jx'' ''acme'' ''widgets'' 0
          ([(GetFailed (ExternalError True ''not found''), 1)]
           @ [(GetFailed (ExternalError True ''not found''), 11)])) =
       Some (Some (webhook_timeout acme_externals acme_options ''jx'' ''acme-widgets'' ''acme/widgets''))
   \<and> \<not> IsNotFound (ExternalError False ''forbidden'')
   \<and> fst (waitForWebHookToBeSetup acme_externals acme_options ''jx'' ''acme'' ''widgets'' 0
          ([(GetFailed (ExternalError True ''not found''), 1)]
           @ (GetFailed (ExternalError False ''forbidden''), 3) # [])) =
       Some (Some (Wrapf (ExternalError False ''forbidden'')
                     ''failed to find SourceRepository %s in namespace %s'' [''acme-widgets'', ''jx'']))"
proof -
  have h: "fst (waitForWebHookToBeSetup acme_externals acme_options ''jx'' ''acme'' ''widgets'' 0
          [(GetFailed (ExternalError True ''not found''), 1)]) = None"
    by (simp add: run_defs)
  have x: "ToValidName acme_externals (Owner acme_options @ ''-'' @ Repository acme_options) = ''acme-widgets''"
    "Join acme_externals ''acme'' ''widgets'' = ''acme/widgets''"
    "(0::int) + WaitDuration acme_options < 11"
    by (simp_all add: acme_externals_def acme_options_def)
  show ?thesis
    using h x
      not_found_keeps_polling [OF h, where err = "ExternalError True ''not found''" and now = 11]
      not_found_keeps_polling [OF h, where err = "ExternalError False ''forbidden''" and now = 3
        and rest = "[]"]
    by simp
qed

text \<open>
  C2 (as amended). Whatever the loop variables, an iteration of the webhook
  phase that observes a status annotation with the case-insensitive prefix
  \<open>err\<close> does not end the phase at its check: the phase times out if the
  deadline has passed at this iteration and goes on with the next poll
  otherwise. A run of the phase that returns does so at a poll that observes
  the status annotation equal to \<open>true\<close> (returning \<open>nil\<close>), or at a poll whose
  deadline comparison finds the deadline passed (returning the timeout error),
  or at a poll whose fetch fails with an error other than not-found (returning
  that error wrapped).
\<close>

theorem webhook_phase_ends_only:
  "(HasPrefix (ToLower (webhook_status sr)) ''err'' \<longrightarrow>
      fst (webhook_loop x opts ns name fullName deadline lw st ((Got sr, now) # rest)) =
        (if deadline < now then Some (Some (webhook_timeout x opts ns name fullName))
         else fst (webhook_loop x opts ns name fullName deadline True
                (fst (snd (check_annotations x st sr))) rest)))
   \<and> (fst (waitForWebHookToBeSetup x opts ns owner repository start obs) = Some r \<longrightarrow>
        (\<exists>pre g t post. obs = pre @ (g, t) # post
           \<and> fst (waitForWebHookToBeSetup x opts ns owner repository start pre) = None
           \<and> ((r = None \<and> (\<exists>sr. g = Got sr \<and> webhook_status sr = ''true''))
              \<or> (r = Some (webhook_timeout x opts ns
                             (ToValidName x (Owner opts @ ''-'' @ Repository opts))
                             (Join x owner repository))
                  \<and> start + WaitDuration opts < t)
              \<or> (\<exists>err. g = GetFailed err \<and> \<not> IsNotFound err
                   \<and> r = Some (Wrapf err ''failed to find SourceRepository %s in namespace %s''
                                  [ToValidName x (Owner opts @ ''-'' @ Repository opts), ns])))))"
proof (intro conjI impI)
  assume err: "HasPrefix (ToLower (webhook_status sr)) ''err''"
  obtain fin st' logs where c: "check_annotations x st sr = (fin, st', logs)"
    by (cases "check_annotations x st sr")
  with check_annotations_err_continues [OF err, of x st] have "\<not> fin" by simp
  with c have "poll_source_repository x ns name st (Got sr) = Inr (False, st', logs)"
    by (simp add: poll_source_repository_def)
  from webhook_loop_continue [OF this, of opts fullName deadline lw now rest] c
  show "fst (webhook_loop x opts ns name fullName deadline lw st ((Got sr, now) # rest)) =
        (if deadline < now then Some (Some (webhook_timeout x opts ns name fullName))
         else fst (webhook_loop x opts ns name fullName deadline True
                (fst (snd (check_annotations x st sr))) rest))"
    by simp
next
  assume "fst (waitForWebHookToBeSetup x opts ns owner repository start obs) = Some r"
  then show "\<exists>pre g t post. obs = pre @ (g, t) # post
           \<and> fst (waitForWebHookToBeSetup x opts ns owner repository start pre) = None
           \<and> ((r = None \<and> (\<exists>sr. g = Got sr \<and> webhook_status sr = ''true''))
              \<or> (r = Some (webhook_timeout x opts ns
                             (ToValidName x (Owner opts @ ''-'' @ Repository opts))
                             (Join x owner repository))
                  \<and> start + WaitDuration opts < t)
              \<or> (\<exists>err. g = GetFailed err \<and> \<not> IsNotFound err
                   \<and> r = Some (Wrapf err ''failed to find SourceRepository %s in namespace %s''
                                  [ToValidName x (Owner opts @ ''-'' @ Repository opts), ns])))"
    unfolding waitForWebHookToBeSetup_def by (rule webhook_loop_ends_only)
qed

theorem webhook_phase_ends_only_witness:
  "HasPrefix (ToLower (webhook_status (annotated [''webhook.jenkins-x.io'' \<mapsto> ''Error: quota exceeded''])))
     ''err''
   \<and> fst (webhook_loop acme_externals acme_options ''jx'' ''acme-widgets'' ''acme/widgets'' 10 False
            initial_state
            ((Got (annotated [''webhook.jenkins-x.io'' \<mapsto> ''Error: quota exceeded'']), 1) # [])) = None
   \<and> fst (waitForWebHookToBeSetup acme_externals acme_options ''jx'' ''acme'' ''widgets'' 0
            [(Got (annotated [''webhook.jenkins-x.io'' \<mapsto> ''Error: quota exceeded'']), 1),
             (Got (annotated [''webhook.jenkins-x.io'' \<mapsto> ''true'']), 3)]) = Some None
   \<and> (\<exists>pre g t post.
         [(Got (annotated [''webhook.jenkins-x.io'' \<mapsto> ''Error: quota exceeded'']), 1),
          (Got (annotated [''webhook.jenkins-x.io'' \<mapsto> ''true'']), 3)] = pre @ (g, t) # post
         \<and> fst (waitForWebHookToBeSetup acme_externals acme_options ''jx'' ''acme'' ''widgets'' 0 pre) = None
         \<and> (\<exists>sr. g = Got sr \<and> webhook_status sr = ''true''))"
proof -
  let ?e = "annotated [''webhook.jenkins-x.io'' \<mapsto> ''Error: quota exceeded'']"
  let ?t = "annotated [''webhook.jenkins-x.io'' \<mapsto> ''true'']"
  have h1: "HasPrefix (ToLower (webhook_status ?e)) ''err''"
    by code_simp
  have h2: "fst (waitForWebHookToBeSetup acme_externals acme_options ''jx'' ''acme'' ''widgets'' 0
            [(Got ?e, 1), (Got ?t, 3)]) = Some None"
    by code_simp
  have early: "\<not> (10::int) < 1" by simp
  note inst = webhook_phase_ends_only [where sr = ?e and x = acme_externals and opts = acme_options
      and ns = "''jx''" and name = "''acme-widgets''" and fullName = "''acme/widgets''"
      and deadline = 10 and lw = False and st = initial_state and now = 1 and rest = "[]"
      and owner = "''acme''" and repository = "''widgets''" and start = 0
      and obs = "[(Got ?e, 1), (Got ?t, 3)]" and r = None]
  from inst h1 early
  have c1: "fst (webhook_loop acme_externals acme_options ''jx'' ''acme-widgets'' ''acme/widgets'' 10 False
            initial_state ((Got ?e, 1) # [])) = None"
    by simp
  from inst h2
  have c2: "\<exists>pre g t post. [(Got ?e, 1), (Got ?t, 3)] = pre @ (g, t) # post
         \<and> fst (waitForWebHookToBeSetup acme_externals acme_options ''jx'' ''acme'' ''widgets'' 0 pre) = None
         \<and> (\<exists>sr. g = Got sr \<and> webhook_status sr = ''true'')"
    by auto
  from h1 h2 c1 c2 show ?thesis by blast
qed

text \<open>
  C2 as stated fails: a fetch that fails with an error other than not-found ends
  the phase, with no status annotation observed and the deadline not passed.
\<close>

theorem fetch_error_ends_phase_counterexample:
  "fst (waitForWebHookToBeSetup acme_externals acme_options ''jx'' ''acme'' ''widgets'' 0
          [(GetFailed (ExternalError False ''forbidden''), 1)]) =
     Some (Some (Wrapf (ExternalError False ''forbidden'')
                   ''failed to find SourceRepository %s in namespace %s'' [''acme-widgets'', ''jx'']))
   \<and> \<not> (0 + WaitDuration acme_options < 1)"
  by (simp add: run_defs)

lemma err_prefix_nonempty: "HasPrefix (ToLower v) ''err'' \<Longrightarrow> v \<noteq> []"
  by (auto simp: HasPrefix_def ToLower_def)

lemma poll_warnings:
  assumes "poll_source_repository x ns name st g = Inr (fin, st', logs)"
  shows "filter is_warning logs =
     (if lastFailMessage st' \<noteq> lastFailMessage st
      then [Warnf ''when creating webhook: %s'' [lastFailMessage st']] else [])"
proof (cases g)
  case (GetFailed err)
  with assms show ?thesis
    by (auto simp: poll_source_repository_def split: if_splits)
next
  case (Got sr)
  with assms have c: "check_annotations x st sr = (fin, st', logs)"
    by (simp add: poll_source_repository_def)
  from c have st': "st' = fst (snd (check_annotations x st sr))"
    and logs: "logs = snd (snd (check_annotations x st sr))"
    by simp_all
  show ?thesis
    unfolding logs check_annotations_warnings st' check_annotations_state
    by auto
qed

lemma webhook_loop_warnings:
  "distinct_adj (Warnf ''when creating webhook: %s'' [lastFailMessage st]
     # filter is_warning (snd (webhook_loop x opts ns name fullName deadline lw st obs)))"
proof (induction obs arbitrary: lw st)
  case Nil
  show ?case by simp
next
  case (Cons a obs)
  obtain g now where a: "a = (g, now)" by (cases a)
  show ?case
  proof (cases "poll_source_repository x ns name st g")
    case (Inl e)
    with a show ?thesis by simp
  next
    case (Inr t)
    obtain fin st' logs where t: "t = (fin, st', logs)" by (cases t)
    note w = poll_warnings [OF Inr [unfolded t]]
    obtain res evs where rec: "webhook_loop x opts ns name fullName deadline True st' obs = (res, evs)"
      by (cases "webhook_loop x opts ns name fullName deadline True st' obs")
    from Cons.IH [where lw = True and st = st'] rec
    have ih: "distinct_adj (Warnf ''when creating webhook: %s'' [lastFailMessage st'] # filter is_warning evs)"
      by simp
    then have ih': "distinct_adj (filter is_warning evs)"
      by (rule distinct_adj_ConsD)
    from a Inr t w rec ih ih' show ?thesis
      by (auto simp: webhook_waiting_def)
  qed
qed

text \<open>
  C5 (as amended). On a webhook-phase poll that observes a status annotation
  with the prefix \<open>err\<close> and a non-empty error-detail annotation: if the status
  value differs from the one recorded last, the tracked failure message becomes
  the observed detail, and the detail is logged as a warning exactly when it
  differs from the message tracked before; if the status value equals the one
  recorded last, neither tracked value changes and no warning is logged,
  whatever the detail annotation holds. In every run of the phase no two
  consecutive warnings are the same.
\<close>

theorem failure_message_tracking:
  assumes "HasPrefix (ToLower (webhook_status sr)) ''err''"
    and "webhook_error sr \<noteq> []"
  shows "(webhook_status sr \<noteq> lastValue st \<longrightarrow>
            lastFailMessage (fst (snd (check_annotations x st sr))) = webhook_error sr
          \<and> filter is_warning (snd (snd (check_annotations x st sr))) =
              (if webhook_error sr \<noteq> lastFailMessage st
               then [Warnf ''when creating webhook: %s'' [webhook_error sr]] else []))
       \<and> (webhook_status sr = lastValue st \<longrightarrow>
            lastFailMessage (fst (snd (check_annotations x st sr))) = lastFailMessage st
          \<and> lastValue (fst (snd (check_annotations x st sr))) = lastValue st
          \<and> filter is_warning (snd (snd (check_annotations x st sr))) = [])
       \<and> distinct_adj (filter is_warning
            (snd (waitForWebHookToBeSetup x opts ns owner repository start obs)))"
proof -
  from assms(1) have ne: "webhook_status sr \<noteq> []" by (rule err_prefix_nonempty)
  from assms(1) true_not_err have nt: "webhook_status sr \<noteq> ''true''" by auto
  have a: "webhook_status sr \<noteq> lastValue st \<longrightarrow>
            lastFailMessage (fst (snd (check_annotations x st sr))) = webhook_error sr
          \<and> filter is_warning (snd (snd (check_annotations x st sr))) =
              (if webhook_error sr \<noteq> lastFailMessage st
               then [Warnf ''when creating webhook: %s'' [webhook_error sr]] else [])"
    using assms ne nt by (simp add: check_annotations_state check_annotations_warnings)
  have b: "webhook_status sr = lastValue st \<longrightarrow>
            lastFailMessage (fst (snd (check_annotations x st sr))) = lastFailMessage st
          \<and> lastValue (fst (snd (check_annotations x st sr))) = lastValue st
          \<and> filter is_warning (snd (snd (check_annotations x st sr))) = []"
    by (simp add: check_annotations_state check_annotations_warnings)
  have c: "distinct_adj (filter is_warning
            (snd (waitForWebHookToBeSetup x opts ns owner repository start obs)))"
    unfolding waitForWebHookToBeSetup_def
    using webhook_loop_warnings by (rule distinct_adj_ConsD)
  from a b c show ?thesis by blast
qed

theorem failure_message_tracking_witness:
  "HasPrefix (ToLower (webhook_status (annotated
      [''webhook.jenkins-x.io'' \<mapsto> ''err'', ''webhook.jenkins-x.io/error'' \<mapsto> ''webhook creation denied''])))
     ''err''
   \<and> webhook_error (annotated
      [''webhook.jenkins-x.io'' \<mapsto> ''err'', ''webhook.jenkins-x.io/error'' \<mapsto> ''webhook creation denied''])
      \<noteq> []
   \<and> webhook_status (annotated
      [''webhook.jenkins-x.io'' \<mapsto> ''err'', ''webhook.jenkins-x.io/error'' \<mapsto> ''webhook creation denied''])
      \<noteq> lastValue initial_state
   \<and> lastFailMessage (fst (snd (check_annotations acme_externals initial_state (annotated
      [''webhook.jenkins-x.io'' \<mapsto> ''err'', ''webhook.jenkins-x.io/error'' \<mapsto> ''webhook creation denied'']))))
      = ''webhook creation denied''
   \<and> filter is_warning (snd (snd (check_annotations acme_externals initial_state (annotated
      [''webhook.jenkins-x.io'' \<mapsto> ''err'', ''webhook.jenkins-x.io/error'' \<mapsto> ''webhook creation denied'']))))
      = [Warnf ''when creating webhook: %s'' [''webhook creation denied'']]"
proof -
  let ?sr = "annotated
      [''webhook.jenkins-x.io'' \<mapsto> ''err'', ''webhook.jenkins-x.io/error'' \<mapsto> ''webhook creation denied'']"
  have h1: "HasPrefix (ToLower (webhook_status ?sr)) ''err''"
    by code_simp
  have e: "webhook_error ?sr = ''webhook creation denied''"
    by (simp add: webhook_error_def annotated_def map_index_def)
  then have h2: "webhook_error ?sr \<noteq> []" by simp
  have h3: "webhook_status ?sr \<noteq> lastValue initial_state"
    by (simp add: webhook_status_def annotated_def map_index_def initial_state_def)
  have h4: "lastFailMessage initial_state = []"
    by (simp add: initial_state_def)
  from failure_message_tracking [OF h1 h2, of initial_state acme_externals] h1 h2 h3 h4 e
  show ?thesis by simp
qed

text \<open>
  C5 as stated fails: when the detail annotation changes while the status
  annotation stays \<open>err\<close>, the new detail is neither logged nor tracked.
\<close>

theorem changed_detail_counterexample:
  "filter is_warning (snd (waitForWebHookToBeSetup acme_externals acme_options ''jx'' ''acme'' ''widgets'' 0
      [(Got (annotated [''webhook.jenkins-x.io'' \<mapsto> ''err'',
                        ''webhook.jenkins-x.io/error'' \<mapsto> ''quota exceeded'']), 1),
       (Got (annotated [''webhook.jenkins-x.io'' \<mapsto> ''err'',
                        ''webhook.jenkins-x.io/error'' \<mapsto> ''webhook creation denied'']), 3)]))
     = [Warnf ''when creating webhook: %s'' [''quota exceeded'']]
   \<and> lastFailMessage (fst (snd (check_annotations acme_externals
        \<lparr>lastValue = ''err'', found = True, lastFailMessage = ''quota exceeded''\<rparr>
        (annotated [''webhook.jenkins-x.io'' \<mapsto> ''err'',
                    ''webhook.jenkins-x.io/error'' \<mapsto> ''webhook creation denied'']))))
     = ''quota exceeded''"
  by code_simp

text \<open>
  The timeout error of the webhook phase is built from the format string of
  the trigger phase: with the same name in the first argument the two errors
  are equal.
\<close>

lemma webhook_timeout_same_message:
  "webhook_timeout x opts ns (LighthouseConfigMap opts) fullName = trigger_timeout x opts ns fullName"
  by (simp add: webhook_timeout_def trigger_timeout_def)

text \<open>
  C4. The claim: when the webhook phase runs past its deadline, the timeout
  error identifies the webhook phase and carries the target name, the
  namespace and the wait duration. The code at scenario C (status \<open>err\<close> with
  detail "webhook creation denied" until the deadline): the error carries the
  three values, under the message of the trigger phase ("failed to find trigger
  in the lighthouse configuration in ConfigMap ..."), the SourceRepository
  name standing where the ConfigMap name belongs.
\<close>

theorem webhook_timeout_reads_as_trigger_timeout:
  "fst (waitForWebHookToBeSetup acme_externals acme_options ''jx'' ''acme'' ''widgets'' 0
      [(Got (annotated [''webhook.jenkins-x.io'' \<mapsto> ''err'',
                        ''webhook.jenkins-x.io/error'' \<mapsto> ''webhook creation denied'']), 5),
       (Got (annotated [''webhook.jenkins-x.io'' \<mapsto> ''err'',
                        ''webhook.jenkins-x.io/error'' \<mapsto> ''webhook creation denied'']), 11)])
   = Some (Some (Errorf
       ''failed to find trigger in the lighthouse configuration in ConfigMap %s in namespace %s for repository: %s within %s''
       [''acme-widgets'', ''jx'', ''acme/widgets'', ''10ns'']))
   \<and> Errorf
       ''failed to find trigger in the lighthouse configuration in ConfigMap %s in namespace %s for repository: %s within %s''
       [''acme-widgets'', ''jx'', ''acme/widgets'', ''10ns'']
     = trigger_timeout acme_externals (acme_options\<lparr>LighthouseConfigMap := ''acme-widgets''\<rparr>)
         ''jx'' ''acme/widgets''"
  by (simp add: run_defs trigger_timeout_def)

section \<open>Order of checks, deadline comparisons and the waiting line\<close>

lemma check_annotations_logs:
  "e \<in> set (snd (snd (check_annotations x st sr))) \<Longrightarrow>
   (\<exists>args. e = Infof ''found SourceRepository %s for %s'' args)
   \<or> (\<exists>args. e = Infof ''webhook status annotation is: %s'' args)
   \<or> (\<exists>args. e = Warnf ''when creating webhook: %s'' args)"
  by (auto simp: check_annotations_def Let_def split: if_splits)

lemma poll_logs:
  assumes "poll_source_repository x ns name st g = Inr (fin, st', logs)" and "e \<in> set logs"
  shows "\<not> is_check e \<and> e \<noteq> TimeNow \<and> \<not> is_sleep e
    \<and> e \<noteq> webhook_waiting x opts ns name fullName"
proof (cases g)
  case (GetFailed err)
  with assms show ?thesis by (auto simp: poll_source_repository_def split: if_splits)
next
  case (Got sr)
  with assms have "e \<in> set (snd (snd (check_annotations x st sr)))"
    by (auto simp: poll_source_repository_def)
  from check_annotations_logs [OF this] show ?thesis
    by (auto simp: webhook_waiting_def)
qed

lemma poll_logs_filter:
  assumes "poll_source_repository x ns name st g = Inr (fin, st', logs)"
  shows "filter (\<lambda>e. is_check e \<or> e = TimeNow) logs = []"
    and "filter is_check logs = []"
    and "count_list logs (webhook_waiting x opts ns name fullName) = 0"
    and "takeWhile (\<lambda>e. \<not> is_sleep e) (logs @ rest) = logs @ takeWhile (\<lambda>e. \<not> is_sleep e) rest"
    and "list_ex is_sleep logs = False"
  using poll_logs [OF assms]
  by (auto simp: filter_empty_conv count_list_0_iff takeWhile_append2 list_ex_iff)

lemma checks_and_comparisons_append:
  "checks_and_comparisons (as @ bs) = checks_and_comparisons as @ checks_and_comparisons bs"
  by (simp add: checks_and_comparisons_def)

text \<open>
  While the webhook phase is polling, the status recorded last is never
  \<open>true\<close>: observing \<open>true\<close> returns.
\<close>

lemma poll_keeps_not_true:
  assumes "poll_source_repository x ns name st g = Inr (False, st', logs)"
    and "lastValue st \<noteq> ''true''"
  shows "lastValue st' \<noteq> ''true''"
proof (cases g)
  case (GetFailed err)
  with assms show ?thesis by (auto simp: poll_source_repository_def split: if_splits)
next
  case (Got sr)
  with assms(1) have c: "check_annotations x st sr = (False, st', logs)"
    by (simp add: poll_source_repository_def)
  from c have nd: "\<not> fst (check_annotations x st sr)"
    and st': "st' = fst (snd (check_annotations x st sr))"
    by simp_all
  from nd assms(2) have "webhook_status sr \<noteq> ''true''"
    by (simp add: check_annotations_done)
  with assms(2) show ?thesis
    unfolding st' check_annotations_state by simp
qed

lemma webhook_loop_append_state:
  "fst (webhook_loop x opts ns name fullName deadline lw st pre) = None \<Longrightarrow>
   lastValue st \<noteq> ''true'' \<Longrightarrow>
   \<exists>st'. lastValue st' \<noteq> ''true'' \<and> (\<forall>rest.
     webhook_loop x opts ns name fullName deadline lw st (pre @ rest) =
       (fst (webhook_loop x opts ns name fullName deadline (lw \<or> pre \<noteq> []) st' rest),
        snd (webhook_loop x opts ns name fullName deadline lw st pre)
        @ snd (webhook_loop x opts ns name fullName deadline (lw \<or> pre \<noteq> []) st' rest)))"
proof (induction pre arbitrary: lw st)
  case Nil
  then have "lastValue st \<noteq> ''true'' \<and> (\<forall>rest.
     webhook_loop x opts ns name fullName deadline lw st ([] @ rest) =
       (fst (webhook_loop x opts ns name fullName deadline (lw \<or> [] \<noteq> []) st rest),
        snd (webhook_loop x opts ns name fullName deadline lw st [])
        @ snd (webhook_loop x opts ns name fullName deadline (lw \<or> [] \<noteq> []) st rest)))"
    by simp
  then show ?case by blast
next
  case (Cons a pre)
  obtain g now where a: "a = (g, now)" by (cases a)
  from Cons.prems(1) a obtain st1 logs where
    poll: "poll_source_repository x ns name st g = Inr (False, st1, logs)"
    and early: "\<not> deadline < now"
    and still: "fst (webhook_loop x opts ns name fullName deadline True st1 pre) = None"
    by (auto split: sum.splits prod.splits if_splits)
  from poll_keeps_not_true [OF poll Cons.prems(2)] have nt: "lastValue st1 \<noteq> ''true''" .
  from Cons.IH [OF still nt] obtain st' where nt': "lastValue st' \<noteq> ''true''"
    and ih: "\<And>rest. webhook_loop x opts ns name fullName deadline True st1 (pre @ rest) =
       (fst (webhook_loop x opts ns name fullName deadline True st' rest),
        snd (webhook_loop x opts ns name fullName deadline True st1 pre)
        @ snd (webhook_loop x opts ns name fullName deadline True st' rest))"
    by auto
  have "\<forall>rest. webhook_loop x opts ns name fullName deadline lw st ((a # pre) @ rest) =
       (fst (webhook_loop x opts ns name fullName deadline (lw \<or> a # pre \<noteq> []) st' rest),
        snd (webhook_loop x opts ns name fullName deadline lw st (a # pre))
        @ snd (webhook_loop x opts ns name fullName deadline (lw \<or> a # pre \<noteq> []) st' rest))"
    using a poll early ih by (simp split: prod.splits)
  with nt' show ?case by blast
qed

lemma webhook_loop_polling_trace:
  "fst (webhook_loop x opts ns name fullName deadline lw st pre) = None \<Longrightarrow>
   checks_and_comparisons (snd (webhook_loop x opts ns name fullName deadline lw st pre)) =
     concat (replicate (length pre) [GetSourceRepository, TimeNow])"
proof (induction pre arbitrary: lw st)
  case Nil
  show ?case by (simp add: checks_and_comparisons_def)
next
  case (Cons a pre)
  obtain g now where a: "a = (g, now)" by (cases a)
  from Cons.prems(1) a obtain st1 logs where
    poll: "poll_source_repository x ns name st g = Inr (False, st1, logs)"
    and early: "\<not> deadline < now"
    and still: "fst (webhook_loop x opts ns name fullName deadline True st1 pre) = None"
    by (auto split: sum.splits prod.splits if_splits)
  note quiet = poll_logs_filter(1) [OF poll]
  obtain res evs where rec: "webhook_loop x opts ns name fullName deadline True st1 pre = (res, evs)"
    by (cases "webhook_loop x opts ns name fullName deadline True st1 pre")
  from Cons.IH [OF still] rec
  have "checks_and_comparisons evs = concat (replicate (length pre) [GetSourceRepository, TimeNow])"
    by simp
  with a poll early quiet rec show ?case
    by (simp add: checks_and_comparisons_def webhook_waiting_def)
qed

lemma webhook_loop_got:
  assumes "lastValue st \<noteq> ''true''"
  shows "(webhook_status sr = ''true'' \<longrightarrow>
            fst (webhook_loop x opts ns name fullName deadline lw st ((Got sr, now) # rest)) = Some None
          \<and> checks_and_comparisons
              (snd (webhook_loop x opts ns name fullName deadline lw st ((Got sr, now) # rest)))
              = [GetSourceRepository])
       \<and> (webhook_status sr \<noteq> ''true'' \<and> deadline < now \<longrightarrow>
            fst (webhook_loop x opts ns name fullName deadline lw st ((Got sr, now) # rest))
              = Some (Some (webhook_timeout x opts ns name fullName))
          \<and> checks_and_comparisons
              (snd (webhook_loop x opts ns name fullName deadline lw st ((Got sr, now) # rest)))
              = [GetSourceRepository, TimeNow])
       \<and> (webhook_status sr \<noteq> ''true'' \<and> \<not> deadline < now \<longrightarrow>
            fst (webhook_loop x opts ns name fullName deadline lw st [(Got sr, now)]) = None
          \<and> checks_and_comparisons
              (snd (webhook_loop x opts ns name fullName deadline lw st [(Got sr, now)]))
              = [GetSourceRepository, TimeNow])"
proof -
  obtain fin st' logs where ca: "check_annotations x st sr = (fin, st', logs)"
    by (cases "check_annotations x st sr")
  with check_annotations_done [of x st sr] assms
  have fin: "fin = (webhook_status sr = ''true'')" by simp
  from ca have poll: "poll_source_repository x ns name st (Got sr) = Inr (fin, st', logs)"
    by (simp add: poll_source_repository_def)
  note quiet = poll_logs_filter(1) [OF poll]
  from poll fin quiet show ?thesis
    by (simp add: checks_and_comparisons_def webhook_waiting_def)
qed

text \<open>
  C3 (as amended). In both poll phases every iteration checks its condition
  before it compares the clock with the deadline. At any iteration a phase has
  reached (the iterations before it having each made one check and one
  comparison, in that order): if the check finds the condition satisfied (a
  trigger for the repository, the status annotation \<open>true\<close>) the phase returns
  success without comparing the clock, whatever the clock reads; if not and
  the deadline lies before the clock reading, it returns the timeout error after
  that one further check and comparison; if not and the deadline has not
  passed, it sleeps and is still polling. With no earlier iteration this is
  the entry to the phase: when the deadline (the clock on entry plus the wait
  duration) lies before the clock reading of the first comparison, as for a
  deadline already in the past or a wait duration of zero once the clock has
  advanced, the phase performs exactly one check, and returns success if it
  is satisfied.
\<close>

theorem check_before_deadline:
  assumes "fst (waitForRepositoryToBeSetup x opts ns fullName start pre) = None"
    and "fst (waitForWebHookToBeSetup x opts ns owner repository start pre') = None"
  shows "checks_and_comparisons (snd (waitForRepositoryToBeSetup x opts ns fullName start pre)) =
           concat (replicate (length pre) [LoadLighthouseConfig, TimeNow])
       \<and> (containsRepositoryTrigger cfg fullName \<longrightarrow>
            waitForRepositoryToBeSetup x opts ns fullName start (pre @ (Loaded cfg, now) # rest) =
              (Some (True, None),
               snd (waitForRepositoryToBeSetup x opts ns fullName start pre) @ [LoadLighthouseConfig]))
       \<and> (\<not> containsRepositoryTrigger cfg fullName \<and> start + WaitDuration opts < now \<longrightarrow>
            waitForRepositoryToBeSetup x opts ns fullName start (pre @ (Loaded cfg, now) # rest) =
              (Some (False, Some (trigger_timeout x opts ns fullName)),
               snd (waitForRepositoryToBeSetup x opts ns fullName start pre)
               @ [LoadLighthouseConfig, TimeNow]))
       \<and> (\<not> containsRepositoryTrigger cfg fullName \<and> \<not> start + WaitDuration opts < now \<longrightarrow>
            waitForRepositoryToBeSetup x opts ns fullName start (pre @ [(Loaded cfg, now)]) =
              (None,
               snd (waitForRepositoryToBeSetup x opts ns fullName start pre)
               @ [LoadLighthouseConfig, TimeNow]
               @ (if pre = [] then [trigger_waiting x opts ns fullName] else [])
               @ [Sleep (PollPeriod opts)]))
       \<and> checks_and_comparisons (snd (waitForWebHookToBeSetup x opts ns owner repository start pre')) =
           concat (replicate (length pre') [GetSourceRepository, TimeNow])
       \<and> (webhook_status sr = ''true'' \<longrightarrow>
            fst (waitForWebHookToBeSetup x opts ns owner repository start (pre' @ (Got sr, now) # rest'))
              = Some None
          \<and> checks_and_comparisons
              (snd (waitForWebHookToBeSetup x opts ns owner repository start (pre' @ (Got sr, now) # rest')))
              = concat (replicate (length pre') [GetSourceRepository, TimeNow]) @ [GetSourceRepository])
       \<and> (webhook_status sr \<noteq> ''true'' \<and> start + WaitDuration opts < now \<longrightarrow>
            fst (waitForWebHookToBeSetup x opts ns owner repository start (pre' @ (Got sr, now) # rest'))
              = Some (Some (webhook_timeout x opts ns
                       (ToValidName x (Owner opts @ ''-'' @ Repository opts))
                       (Join x owner repository)))
          \<and> checks_and_comparisons
              (snd (waitForWebHookToBeSetup x opts ns owner repository start (pre' @ (Got sr, now) # rest')))
              = concat (replicate (length pre') [GetSourceRepository, TimeNow])
                @ [GetSourceRepository, TimeNow])
       \<and> (webhook_status sr \<noteq> ''true'' \<and> \<not> start + WaitDuration opts < now \<longrightarrow>
            fst (waitForWebHookToBeSetup x opts ns owner repository start (pre' @ [(Got sr, now)]))
              = None)"
proof -
  let ?d = "start + WaitDuration opts"
  let ?name = "ToValidName x (Owner opts @ ''-'' @ Repository opts)"
  let ?fn = "Join x owner repository"
  from assms(1) have tp: "fst (trigger_loop x opts ns fullName ?d False pre) = None"
    by (simp add: waitForRepositoryToBeSetup_def)
  from assms(2) have wp: "fst (webhook_loop x opts ns ?name ?fn ?d False initial_state pre') = None"
    by (simp add: waitForWebHookToBeSetup_def)
  have t1: "checks_and_comparisons (snd (waitForRepositoryToBeSetup x opts ns fullName start pre)) =
           concat (replicate (length pre) [LoadLighthouseConfig, TimeNow])"
    unfolding waitForRepositoryToBeSetup_def using tp by (rule trigger_loop_polling_trace)
  have t2: "containsRepositoryTrigger cfg fullName \<longrightarrow>
            waitForRepositoryToBeSetup x opts ns fullName start (pre @ (Loaded cfg, now) # rest) =
              (Some (True, None),
               snd (waitForRepositoryToBeSetup x opts ns fullName start pre) @ [LoadLighthouseConfig])"
    by (simp add: waitForRepositoryToBeSetup_def trigger_loop_step [OF tp])
  have t3: "\<not> containsRepositoryTrigger cfg fullName \<and> ?d < now \<longrightarrow>
            waitForRepositoryToBeSetup x opts ns fullName start (pre @ (Loaded cfg, now) # rest) =
              (Some (False, Some (trigger_timeout x opts ns fullName)),
               snd (waitForRepositoryToBeSetup x opts ns fullName start pre)
               @ [LoadLighthouseConfig, TimeNow])"
    by (simp add: waitForRepositoryToBeSetup_def trigger_loop_step [OF tp])
  have t4: "\<not> containsRepositoryTrigger cfg fullName \<and> \<not> ?d < now \<longrightarrow>
            waitForRepositoryToBeSetup x opts ns fullName start (pre @ [(Loaded cfg, now)]) =
              (None,
               snd (waitForRepositoryToBeSetup x opts ns fullName start pre)
               @ [LoadLighthouseConfig, TimeNow]
               @ (if pre = [] then [trigger_waiting x opts ns fullName] else [])
               @ [Sleep (PollPeriod opts)])"
    by (simp add: waitForRepositoryToBeSetup_def trigger_loop_step [OF tp])
  have w1: "checks_and_comparisons (snd (waitForWebHookToBeSetup x opts ns owner repository start pre')) =
           concat (replicate (length pre') [GetSourceRepository, TimeNow])"
    unfolding waitForWebHookToBeSetup_def using wp by (rule webhook_loop_polling_trace)
  have init: "lastValue initial_state \<noteq> ''true''"
    by (simp add: initial_state_def)
  from webhook_loop_append_state [OF wp init] obtain st' where nt: "lastValue st' \<noteq> ''true''"
    and app: "\<And>rest. webhook_loop x opts ns ?name ?fn ?d False initial_state (pre' @ rest) =
       (fst (webhook_loop x opts ns ?name ?fn ?d (False \<or> pre' \<noteq> []) st' rest),
        snd (webhook_loop x opts ns ?name ?fn ?d False initial_state pre')
        @ snd (webhook_loop x opts ns ?name ?fn ?d (False \<or> pre' \<noteq> []) st' rest))"
    by blast
  note got = webhook_loop_got [OF nt, of sr x opts ns ?name ?fn ?d "False \<or> pre' \<noteq> []" now]
  note w1' = w1 [unfolded waitForWebHookToBeSetup_def]
  have w2: "webhook_status sr = ''true'' \<longrightarrow>
            fst (waitForWebHookToBeSetup x opts ns owner repository start (pre' @ (Got sr, now) # rest'))
              = Some None
          \<and> checks_and_comparisons
              (snd (waitForWebHookToBeSetup x opts ns owner repository start (pre' @ (Got sr, now) # rest')))
              = concat (replicate (length pre') [GetSourceRepository, TimeNow]) @ [GetSourceRepository]"
    unfolding waitForWebHookToBeSetup_def app
    using got [of rest'] w1' by (simp add: checks_and_comparisons_append)
  have w3: "webhook_status sr \<noteq> ''true'' \<and> ?d < now \<longrightarrow>
            fst (waitForWebHookToBeSetup x opts ns owner repository start (pre' @ (Got sr, now) # rest'))
              = Some (Some (webhook_timeout x opts ns ?name ?fn))
          \<and> checks_and_comparisons
              (snd (waitForWebHookToBeSetup x opts ns owner repository start (pre' @ (Got sr, now) # rest')))
              = concat (replicate (length pre') [GetSourceRepository, TimeNow])
                @ [GetSourceRepository, TimeNow]"
    unfolding waitForWebHookToBeSetup_def app
    using got [of rest'] w1' by (simp add: checks_and_comparisons_append)
  have w4: "webhook_status sr \<noteq> ''true'' \<and> \<not> ?d < now \<longrightarrow>
            fst (waitForWebHookToBeSetup x opts ns owner repository start (pre' @ [(Got sr, now)]))
              = None"
    unfolding waitForWebHookToBeSetup_def app
    using got [of "[]"] by simp
  from t1 t2 t3 t4 w1 w2 w3 w4 show ?thesis by blast
qed

text \<open>
  C3 as stated fails: with a wait duration of zero and a first comparison that
  reads the clock of the entry, the strict comparison does not fire and both
  phases perform a second check.
\<close>

theorem zero_duration_same_clock_counterexample:
  "WaitDuration (acme_options\<lparr>WaitDuration := 0\<rparr>) = 0
   \<and> waitForRepositoryToBeSetup acme_externals (acme_options\<lparr>WaitDuration := 0\<rparr>)
        ''jx'' ''acme/widgets'' 5 [(Loaded presubmit_config, 5), (Loaded presubmit_config, 6)] =
       (Some (False, Some (trigger_timeout acme_externals (acme_options\<lparr>WaitDuration := 0\<rparr>)
                             ''jx'' ''acme/widgets'')),
        [LoadLighthouseConfig, TimeNow,
         trigger_waiting acme_externals (acme_options\<lparr>WaitDuration := 0\<rparr>) ''jx'' ''acme/widgets'',
         Sleep 2, LoadLighthouseConfig, TimeNow])
   \<and> length (filter is_check
        (snd (waitForWebHookToBeSetup acme_externals (acme_options\<lparr>WaitDuration := 0\<rparr>)
           ''jx'' ''acme'' ''widgets'' 5
           [(GetFailed (ExternalError True ''not found''), 5),
            (GetFailed (ExternalError True ''not found''), 6)]))) = 2"
  by (simp add: waitForRepositoryToBeSetup_def containsRepositoryTrigger_def map_index_def
        presubmit_config_def acme_options_def waitForWebHookToBeSetup_def
        poll_source_repository_def webhook_waiting_def)

theorem check_before_deadline_witness:
  "fst (waitForRepositoryToBeSetup acme_externals acme_options ''jx'' ''acme/widgets'' 0
          [(Loaded presubmit_config, 1)]) = None
   \<and> fst (waitForWebHookToBeSetup acme_externals acme_options ''jx'' ''acme'' ''widgets'' 0
          [(GetFailed (ExternalError True ''not found''), 1)]) = None
   \<and> containsRepositoryTrigger postsubmit_config ''acme/widgets''
   \<and> (0::int) + WaitDuration acme_options < 11
   \<and> waitForRepositoryToBeSetup acme_externals acme_options ''jx'' ''acme/widgets'' 0
        ([(Loaded presubmit_config, 1)] @ (Loaded postsubmit_config, 11) # []) =
       (Some (True, None),
        [LoadLighthouseConfig, TimeNow,
         trigger_waiting acme_externals acme_options ''jx'' ''acme/widgets'', Sleep 2,
         LoadLighthouseConfig])
   \<and> webhook_status (annotated [''webhook.jenkins-x.io'' \<mapsto> ''true'']) = ''true''
   \<and> fst (waitForWebHookToBeSetup acme_externals acme_options ''jx'' ''acme'' ''widgets'' 0
          ([(GetFailed (ExternalError True ''not found''), 1)]
           @ (Got (annotated [''webhook.jenkins-x.io'' \<mapsto> ''true'']), 11) # [])) = Some None
   \<and> fst (waitForRepositoryToBeSetup acme_externals (acme_options\<lparr>WaitDuration := 0\<rparr>)
          ''jx'' ''acme/widgets'' 5
          ([] :: ((unit, unit) config load_result \<times> int) list)) = None
   \<and> (5::int) + WaitDuration (acme_options\<lparr>WaitDuration := 0\<rparr>) < 6
   \<and> \<not> containsRepositoryTrigger presubmit_config ''acme/widgets''
   \<and> waitForRepositoryToBeSetup acme_externals (acme_options\<lparr>WaitDuration := 0\<rparr>)
        ''jx'' ''acme/widgets'' 5 ([] @ (Loaded presubmit_config, 6) # [(Loaded postsubmit_config, 7)]) =
       (Some (False, Some (trigger_timeout acme_externals (acme_options\<lparr>WaitDuration := 0\<rparr>)
                             ''jx'' ''acme/widgets'')),
        [LoadLighthouseConfig, TimeNow])"
proof -
  let ?pre = "[(Loaded presubmit_config, 1)] :: ((unit, unit) config load_result \<times> int) list"
  let ?pre' = "[(GetFailed (ExternalError True ''not found''), 1)]"
  let ?true = "annotated [''webhook.jenkins-x.io'' \<mapsto> ''true'']"
  let ?zero = "acme_options\<lparr>WaitDuration := 0\<rparr>"
  have p: "waitForRepositoryToBeSetup acme_externals acme_options ''jx'' ''acme/widgets'' 0 ?pre =
      (None, [LoadLighthouseConfig, TimeNow,
         trigger_waiting acme_externals acme_options ''jx'' ''acme/widgets'', Sleep 2])"
    by (simp add: waitForRepositoryToBeSetup_def containsRepositoryTrigger_def map_index_def
        presubmit_config_def acme_options_def)
  then have h1: "fst (waitForRepositoryToBeSetup acme_externals acme_options ''jx'' ''acme/widgets'' 0
      ?pre) = None"
    by simp
  have h2: "fst (waitForWebHookToBeSetup acme_externals acme_options ''jx'' ''acme'' ''widgets'' 0
      ?pre') = None"
    by (simp add: run_defs)
  have z: "waitForRepositoryToBeSetup acme_externals ?zero ''jx'' ''acme/widgets'' 5
      ([] :: ((unit, unit) config load_result \<times> int) list) = (None, [])"
    by (simp add: waitForRepositoryToBeSetup_def)
  then have h3: "fst (waitForRepositoryToBeSetup acme_externals ?zero ''jx'' ''acme/widgets'' 5
      ([] :: ((unit, unit) config load_result \<times> int) list)) = None"
    by simp
  have h4: "fst (waitForWebHookToBeSetup acme_externals ?zero ''jx'' ''acme'' ''widgets'' 5 []) = None"
    by (simp add: waitForWebHookToBeSetup_def)
  have c: "containsRepositoryTrigger postsubmit_config ''acme/widgets''"
    by (simp add: containsRepositoryTrigger_def postsubmit_config_def map_index_def)
  have n: "\<not> containsRepositoryTrigger presubmit_config ''acme/widgets''"
    by (simp add: containsRepositoryTrigger_def presubmit_config_def map_index_def)
  have w: "webhook_status ?true = ''true''"
    by (simp add: webhook_status_def annotated_def map_index_def)
  have d: "(0::int) + WaitDuration acme_options < 11" "(5::int) + WaitDuration ?zero < 6"
    by (simp_all add: acme_options_def)
  note i1 = check_before_deadline [OF h1 h2, where cfg = postsubmit_config and now = 11
      and rest = "[]" and sr = ?true and rest' = "[]"]
  note i2 = check_before_deadline [OF h3 h4, where cfg = presubmit_config and now = 6
      and rest = "[(Loaded postsubmit_config, 7)]" and sr = ?true and rest' = "[]"]
  from i1 c p have c1: "waitForRepositoryToBeSetup acme_externals acme_options ''jx'' ''acme/widgets'' 0
        (?pre @ (Loaded postsubmit_config, 11) # []) =
       (Some (True, None),
        [LoadLighthouseConfig, TimeNow,
         trigger_waiting acme_externals acme_options ''jx'' ''acme/widgets'', Sleep 2,
         LoadLighthouseConfig])"
    by auto
  from i1 w have c2: "fst (waitForWebHookToBeSetup acme_externals acme_options ''jx'' ''acme'' ''widgets'' 0
          (?pre' @ (Got ?true, 11) # [])) = Some None"
    by auto
  from i2 n d z have c3: "waitForRepositoryToBeSetup acme_externals ?zero
        ''jx'' ''acme/widgets'' 5 ([] @ (Loaded presubmit_config, 6) # [(Loaded postsubmit_config, 7)]) =
       (Some (False, Some (trigger_timeout acme_externals ?zero ''jx'' ''acme/widgets'')),
        [LoadLighthouseConfig, TimeNow])"
    by auto
  from h1 h2 c d w c1 c2 h3 n c3 show ?thesis by blast
qed

lemma trigger_loop_logged:
  "count_list (snd (trigger_loop x opts ns fullName deadline True obs))
     (trigger_waiting x opts ns fullName) = 0"
proof (induction obs)
  case Nil
  show ?case by simp
next
  case (Cons a obs)
  obtain r now where a: "a = (r, now)" by (cases a)
  from Cons.IH a show ?case
    by (auto simp: trigger_waiting_def split: load_result.splits prod.splits)
qed

lemma webhook_loop_logged:
  "count_list (snd (webhook_loop x opts ns name fullName deadline True st obs))
     (webhook_waiting x opts ns name fullName) = 0"
proof (induction obs arbitrary: st)
  case Nil
  show ?case by simp
next
  case (Cons a obs)
  obtain g now where a: "a = (g, now)" by (cases a)
  show ?case
  proof (cases "poll_source_repository x ns name st g")
    case (Inl e)
    with a show ?thesis by (simp add: webhook_waiting_def)
  next
    case (Inr t)
    obtain fin st' logs where t: "t = (fin, st', logs)" by (cases t)
    note quiet = poll_logs_filter(3) [OF Inr [unfolded t], of opts fullName]
    obtain res evs where rec: "webhook_loop x opts ns name fullName deadline True st' obs = (res, evs)"
      by (cases "webhook_loop x opts ns name fullName deadline True st' obs")
    from Cons.IH [where st = st'] rec
    have "count_list evs (webhook_waiting x opts ns name fullName) = 0" by simp
    with a Inr t quiet rec show ?thesis
      by (simp add: webhook_waiting_def)
  qed
qed

lemma trigger_loop_waiting_once:
  "count_list (snd (trigger_loop x opts ns fullName deadline False obs))
       (trigger_waiting x opts ns fullName) =
     (if list_ex is_sleep (snd (trigger_loop x opts ns fullName deadline False obs)) then 1 else 0)
   \<and> (list_ex is_sleep (snd (trigger_loop x opts ns fullName deadline False obs)) \<longrightarrow>
        takeWhile (\<lambda>e. \<not> is_sleep e) (snd (trigger_loop x opts ns fullName deadline False obs))
          = [LoadLighthouseConfig, TimeNow] @ [trigger_waiting x opts ns fullName])"
proof (cases obs)
  case Nil
  then show ?thesis by simp
next
  case (Cons a rest)
  obtain r now where a: "a = (r, now)" by (cases a)
  obtain res evs where rec: "trigger_loop x opts ns fullName deadline True rest = (res, evs)"
    by (cases "trigger_loop x opts ns fullName deadline True rest")
  with trigger_loop_logged [of x opts ns fullName deadline rest]
  have "count_list evs (trigger_waiting x opts ns fullName) = 0" by simp
  with Cons a rec show ?thesis
    by (auto simp: trigger_waiting_def split: load_result.splits)
qed

lemma webhook_loop_waiting_once:
  "count_list (snd (webhook_loop x opts ns name fullName deadline False st obs))
       (webhook_waiting x opts ns name fullName) =
     (if list_ex is_sleep (snd (webhook_loop x opts ns name fullName deadline False st obs)) then 1 else 0)
   \<and> (list_ex is_sleep (snd (webhook_loop x opts ns name fullName deadline False st obs)) \<longrightarrow>
        (\<exists>pre. takeWhile (\<lambda>e. \<not> is_sleep e)
               (snd (webhook_loop x opts ns name fullName deadline False st obs))
          = pre @ [webhook_waiting x opts ns name fullName]))"
proof (cases obs)
  case Nil
  then show ?thesis by simp
next
  case (Cons a rest)
  obtain g now where a: "a = (g, now)" by (cases a)
  show ?thesis
  proof (cases "poll_source_repository x ns name st g")
    case (Inl e)
    with Cons a show ?thesis by (simp add: webhook_waiting_def)
  next
    case (Inr t)
    obtain fin st' logs where t: "t = (fin, st', logs)" by (cases t)
    note quiet = poll_logs_filter(3) [OF Inr [unfolded t], of opts fullName]
      poll_logs_filter(4,5) [OF Inr [unfolded t]]
    obtain res evs where rec: "webhook_loop x opts ns name fullName deadline True st' rest = (res, evs)"
      by (cases "webhook_loop x opts ns name fullName deadline True st' rest")
    with webhook_loop_logged [of x opts ns name fullName deadline st' rest]
    have "count_list evs (webhook_waiting x opts ns name fullName) = 0" by simp
    with Cons a Inr t rec quiet show ?thesis
      by (simp add: webhook_waiting_def)
  qed
qed

text \<open>
  C8. In a run of either phase the waiting line of that phase is logged once
  if the run sleeps at all and not at all otherwise; when the run sleeps, the
  waiting line is the last action before its first sleep. A run whose first
  check finds the condition satisfied logs no waiting line.
\<close>

theorem waiting_line_once:
  "count_list (snd (waitForRepositoryToBeSetup x opts ns fullName start obs))
       (trigger_waiting x opts ns fullName) =
     (if list_ex is_sleep (snd (waitForRepositoryToBeSetup x opts ns fullName start obs))
      then 1 else 0)
   \<and> (list_ex is_sleep (snd (waitForRepositoryToBeSetup x opts ns fullName start obs)) \<longrightarrow>
        (\<exists>pre. takeWhile (\<lambda>e. \<not> is_sleep e)
                 (snd (waitForRepositoryToBeSetup x opts ns fullName start obs))
               = pre @ [trigger_waiting x opts ns fullName]))
   \<and> (containsRepositoryTrigger cfg fullName \<longrightarrow>
        count_list (snd (waitForRepositoryToBeSetup x opts ns fullName start ((Loaded cfg, now) # rest)))
          (trigger_waiting x opts ns fullName) = 0)
   \<and> count_list (snd (waitForWebHookToBeSetup x opts ns owner repository start obs'))
       (webhook_waiting x opts ns (ToValidName x (Owner opts @ ''-'' @ Repository opts))
          (Join x owner repository)) =
     (if list_ex is_sleep (snd (waitForWebHookToBeSetup x opts ns owner repository start obs'))
      then 1 else 0)
   \<and> (list_ex is_sleep (snd (waitForWebHookToBeSetup x opts ns owner repository start obs')) \<longrightarrow>
        (\<exists>pre. takeWhile (\<lambda>e. \<not> is_sleep e)
                 (snd (waitForWebHookToBeSetup x opts ns owner repository start obs'))
               = pre @ [webhook_waiting x opts ns (ToValidName x (Owner opts @ ''-'' @ Repository opts))
                          (Join x owner repository)]))
   \<and> (webhook_status sr = ''true'' \<longrightarrow>
        count_list (snd (waitForWebHookToBeSetup x opts ns owner repository start ((Got sr, now) # rest')))
          (webhook_waiting x opts ns (ToValidName x (Owner opts @ ''-'' @ Repository opts))
             (Join x owner repository)) = 0)"
proof -
  let ?name = "ToValidName x (Owner opts @ ''-'' @ Repository opts)"
  let ?fn = "Join x owner repository"
  note t = trigger_loop_waiting_once [of x opts ns fullName "start + WaitDuration opts" obs,
      folded waitForRepositoryToBeSetup_def]
  note w = webhook_loop_waiting_once [of x opts ns ?name ?fn "start + WaitDuration opts"
      initial_state obs', folded waitForWebHookToBeSetup_def]
  have t0: "containsRepositoryTrigger cfg fullName \<longrightarrow>
        count_list (snd (waitForRepositoryToBeSetup x opts ns fullName start ((Loaded cfg, now) # rest)))
          (trigger_waiting x opts ns fullName) = 0"
    by (simp add: waitForRepositoryToBeSetup_def trigger_waiting_def)
  have w0: "webhook_status sr = ''true'' \<longrightarrow>
        count_list (snd (waitForWebHookToBeSetup x opts ns owner repository start ((Got sr, now) # rest')))
          (webhook_waiting x opts ns ?name ?fn) = 0"
  proof
    assume true: "webhook_status sr = ''true''"
    obtain fin st' logs where ca: "check_annotations x initial_state sr = (fin, st', logs)"
      by (cases "check_annotations x initial_state sr")
    with check_annotations_done [of x initial_state sr] true have fin: "fin"
      by (simp add: initial_state_def)
    from ca have poll: "poll_source_repository x ns ?name initial_state (Got sr) = Inr (fin, st', logs)"
      by (simp add: poll_source_repository_def)
    from poll_logs_filter(3) [OF poll, of opts ?fn] poll fin
    have "count_list (snd (webhook_loop x opts ns ?name ?fn (start + WaitDuration opts) False
            initial_state ((Got sr, now) # rest'))) (webhook_waiting x opts ns ?name ?fn) = 0"
      by (simp add: webhook_waiting_def)
    then show "count_list (snd (waitForWebHookToBeSetup x opts ns owner repository start ((Got sr, now) # rest')))
          (webhook_waiting x opts ns ?name ?fn) = 0"
      by (simp add: waitForWebHookToBeSetup_def)
  qed
  from t w t0 w0 show ?thesis by blast
qed

theorem waiting_line_once_witness:
  "list_ex is_sleep (snd (waitForRepositoryToBeSetup acme_externals acme_options ''jx'' ''acme/widgets'' 0
      [(Loaded presubmit_config, 1), (Loaded postsubmit_config, 3)]))
   \<and> count_list (snd (waitForRepositoryToBeSetup acme_externals acme_options ''jx'' ''acme/widgets'' 0
      [(Loaded presubmit_config, 1), (Loaded postsubmit_config, 3)]))
       (trigger_waiting acme_externals acme_options ''jx'' ''acme/widgets'') = 1
   \<and> containsRepositoryTrigger postsubmit_config ''acme/widgets''
   \<and> count_list (snd (waitForRepositoryToBeSetup acme_externals acme_options ''jx'' ''acme/widgets'' 0
      ((Loaded postsubmit_config, 1) # [])))
       (trigger_waiting acme_externals acme_options ''jx'' ''acme/widgets'') = 0
   \<and> list_ex is_sleep (snd (waitForWebHookToBeSetup acme_externals acme_options ''jx'' ''acme'' ''widgets'' 0
      [(GetFailed (ExternalError True ''not found''), 1),
       (Got (annotated [''webhook.jenkins-x.io'' \<mapsto> ''true'']), 3)]))
   \<and> count_list (snd (waitForWebHookToBeSetup acme_externals acme_options ''jx'' ''acme'' ''widgets'' 0
      [(GetFailed (ExternalError True ''not found''), 1),
       (Got (annotated [''webhook.jenkins-x.io'' \<mapsto> ''true'']), 3)]))
       (webhook_waiting acme_externals acme_options ''jx'' ''acme-widgets'' ''acme/widgets'') = 1
   \<and> webhook_status (annotated [''webhook.jenkins-x.io'' \<mapsto> ''true'']) = ''true''
   \<and> count_list (snd (waitForWebHookToBeSetup acme_externals acme_options ''jx'' ''acme'' ''widgets'' 0
      ((Got (annotated [''webhook.jenkins-x.io'' \<mapsto> ''true'']), 1) # [])))
       (webhook_waiting acme_externals acme_options ''jx'' ''acme-widgets'' ''acme/widgets'') = 0"
proof -
  let ?tobs = "[(Loaded presubmit_config, 1), (Loaded postsubmit_config, 3)]"
  let ?true = "annotated [''webhook.jenkins-x.io'' \<mapsto> ''true'']"
  let ?wobs = "[(GetFailed (ExternalError True ''not found''), 1), (Got ?true, 3)]"
  have h1: "list_ex is_sleep (snd (waitForRepositoryToBeSetup acme_externals acme_options ''jx''
      ''acme/widgets'' 0 ?tobs))"
    by (simp add: waitForRepositoryToBeSetup_def containsRepositoryTrigger_def map_index_def
        presubmit_config_def postsubmit_config_def acme_options_def)
  have h2: "containsRepositoryTrigger postsubmit_config ''acme/widgets''"
    by (simp add: containsRepositoryTrigger_def postsubmit_config_def map_index_def)
  have h3: "list_ex is_sleep (snd (waitForWebHookToBeSetup acme_externals acme_options ''jx''
      ''acme'' ''widgets'' 0 ?wobs))"
    by (simp add: run_defs)
  have h4: "webhook_status ?true = ''true''"
    by (simp add: webhook_status_def annotated_def map_index_def)
  have n: "ToValidName acme_externals (Owner acme_options @ ''-'' @ Repository acme_options) = ''acme-widgets''"
    "Join acme_externals ''acme'' ''widgets'' = ''acme/widgets''"
    by (simp_all add: acme_externals_def acme_options_def)
  note i = waiting_line_once [where x = acme_externals and opts = acme_options and ns = "''jx''"
      and fullName = "''acme/widgets''" and start = 0 and obs = ?tobs and cfg = postsubmit_config
      and now = 1 and rest = "[]" and owner = "''acme''" and repository = "''widgets''"
      and obs' = ?wobs and sr = ?true and rest' = "[]", unfolded n]
  from i h1 have c1: "count_list (snd (waitForRepositoryToBeSetup acme_externals acme_options ''jx''
      ''acme/widgets'' 0 ?tobs)) (trigger_waiting acme_externals acme_options ''jx'' ''acme/widgets'') = 1"
    by auto
  from i h2 have c2: "count_list (snd (waitForRepositoryToBeSetup acme_externals acme_options ''jx''
      ''acme/widgets'' 0 ((Loaded postsubmit_config, 1) # [])))
       (trigger_waiting acme_externals acme_options ''jx'' ''acme/widgets'') = 0"
    by auto
  from i h3 have c3: "count_list (snd (waitForWebHookToBeSetup acme_externals acme_options ''jx''
      ''acme'' ''widgets'' 0 ?wobs))
       (webhook_waiting acme_externals acme_options ''jx'' ''acme-widgets'' ''acme/widgets'') = 1"
    by auto
  from i h4 have c4: "count_list (snd (waitForWebHookToBeSetup acme_externals acme_options ''jx''
      ''acme'' ''widgets'' 0 ((Got ?true, 1) # [])))
       (webhook_waiting acme_externals acme_options ''jx'' ''acme-widgets'' ''acme/widgets'') = 0"
    by auto
  from h1 h2 h3 h4 c1 c2 c3 c4 show ?thesis by blast
qed

end
